theory Spec2Isabelle
  imports Main "HOL-Library.Word" "HOL-Library.AList" "HOL-Library.Sublist"
begin

section \<open>Data model of pkg/faucet/faucet.go\<close>

text \<open>
  \<open>iotago.BaseToken\<close> and \<open>iotago.Mana\<close> are \<open>uint64\<close>: additions and subtractions
  wrap modulo \<open>2 ^ 64\<close>, comparisons are unsigned. Identifiers and addresses are opaque byte
  strings for the faucet. An output id is a transaction id together with a 16 bit output
  index (\<open>UTXOInput.OutputID()\<close> concatenates the two).
\<close>

type_synonym BaseToken = "64 word"

type_synonym Mana = "64 word"

type_synonym Address = string

type_synonym BlockID = string

type_synonym TransactionID = string

type_synonym OutputID = "TransactionID \<times> 16 word"

type_synonym SlotIndex = "32 word"

text \<open>A basic output, reduced to what the faucet reads and writes: the amount, the stored
  mana and the address of its single address unlock condition.\<close>

record BasicOutput =
  Amount :: BaseToken
  Mana :: Mana
  UnlockAddress :: Address

record UTXOBasicOutput =
  OutputID :: OutputID
  Output :: BasicOutput

record queueItem =
  Bech32 :: string
  BaseTokenAmount :: BaseToken
  Address :: Address

record pendingTransaction =
  BlockID :: BlockID
  TransactionID :: TransactionID
  QueuedItems :: "queueItem list"
  ConsumedInputs :: "OutputID list"

record Options =
  baseTokenAmount :: BaseToken
  baseTokenAmountSmall :: BaseToken
  baseTokenAmountMaxTarget :: BaseToken
  manaAmount :: Mana
  manaAmountMinFaucet :: Mana
  tagMessage :: string

text \<open>
  The errors the faucet returns. \<open>ErrInvalidParameter\<close> and \<open>ErrInternalServerError\<close> are
  the two wrapped HTTP errors with their message (the specification calls the second one
  ServiceUnavailable); \<open>ErrExternal\<close> is an error handed back by one of the injected
  functions; \<open>ErrIntegerOverflow\<close> is the error of the checked arithmetic of \<open>safemath\<close>;
  \<open>ErrSoft\<close> is an error built with \<open>ierrors.Errorf\<close> or \<open>ierrors.Wrap\<close> for the soft error
  log. A message is the format string of the source, without its arguments.
\<close>

datatype error =
    ErrInvalidParameter string
  | ErrInternalServerError string
  | ErrExternal string
  | ErrIntegerOverflow
  | ErrSoft string

text \<open>A Go panic: the \<open>panic\<close> call of \<open>checkPendingTransactionState\<close>, and the runtime
  panic of reading a field through a nil pointer.\<close>

datatype panic = PanicUnknownTransactionState | PanicNilDereference

text \<open>
  The mutable state of \<open>Faucet\<close>, guarded by its lock. The channel \<open>queue\<close> is the list of
  the items it holds, oldest first, and has capacity 5000. The Go map \<open>queueMap\<close> is an
  association list with one entry per key, read with \<open>map_of\<close>, written with
  \<open>AList.update\<close> and \<open>AList.delete\<close>. The slot \<open>pendingTransaction\<close> is a pointer: \<open>None\<close>
  is \<open>nil\<close>, and \<open>Some (p, tx)\<close> is the address \<open>p\<close> of a transaction record \<open>tx\<close>, because
  the code compares the slot by pointer identity.
\<close>

type_synonym 'a ptr = "(nat \<times> 'a) option"

record Faucet =
  faucetBalance :: BaseToken
  queue :: "queueItem list"
  queueMap :: "(string \<times> queueItem) list"
  pendingTransaction :: "pendingTransaction ptr"

definition queueCapacity :: nat where
  "queueCapacity = 5000"

definition init :: Faucet where
  "init = \<lparr> faucetBalance = 0, queue = [], queueMap = [], pendingTransaction = None \<rparr>"

section \<open>Balance projection\<close>

text \<open>
  The closure \<open>collectUnlockableFaucetOutputsAndBalanceFuncWithoutLocking\<close> built in \<open>New\<close>.
  Its first argument is the result of \<open>collectUnlockableFaucetOutputsFunc()\<close>, its second the
  result of \<open>MinDeposit(EmptyBasicOutput)\<close>, its third the queue map. The two loops add in
  \<open>uint64\<close>.
\<close>

definition collectUnlockableFaucetOutputsAndBalanceFuncWithoutLocking ::
  "error + UTXOBasicOutput list \<Rightarrow> error + BaseToken \<Rightarrow> (string \<times> queueItem) list
    \<Rightarrow> error + (UTXOBasicOutput list \<times> BaseToken)" where
  "collectUnlockableFaucetOutputsAndBalanceFuncWithoutLocking collected minDeposit qm =
    (case collected of
       Inl err \<Rightarrow> Inl err
     | Inr unspentOutputs \<Rightarrow>
        (let balance = foldl (\<lambda>b out. b + Amount (Output out)) 0 unspentOutputs;
             pendingRequestsBalance = foldl (\<lambda>b kv. b + BaseTokenAmount (snd kv)) 0 qm
         in case minDeposit of
              Inl err \<Rightarrow> Inl err
            | Inr minStorageDeposit \<Rightarrow>
               (let balance1 = (if balance \<ge> minStorageDeposit
                                then balance - minStorageDeposit else 0);
                    balance2 = (if balance1 \<ge> pendingRequestsBalance
                                then balance1 - pendingRequestsBalance else 0)
                in Inr (unspentOutputs, balance2))))"

definition computeAndSetInitialFaucetBalance ::
  "error + UTXOBasicOutput list \<Rightarrow> error + BaseToken \<Rightarrow> Faucet \<Rightarrow> error + Faucet" where
  "computeAndSetInitialFaucetBalance collected minDeposit f =
    (case collectUnlockableFaucetOutputsAndBalanceFuncWithoutLocking collected minDeposit (queueMap f) of
       Inl err \<Rightarrow> Inl err
     | Inr (unspentOutputs, balance) \<Rightarrow> Inr (f \<lparr> faucetBalance := balance \<rparr>))"

section \<open>Admission\<close>

record EnqueueResponse =
  Address :: string
  WaitingRequests :: int

text \<open>\<open>parseBech32Address\<close>: \<open>iotago.ParseBech32\<close> is injected as a function that returns the
  network prefix and the address, the second argument is the prefix of the protocol
  parameters.\<close>

definition parseBech32Address ::
  "(string \<Rightarrow> error + (string \<times> Address)) \<Rightarrow> string \<Rightarrow> string \<Rightarrow> error + Address" where
  \<open>parseBech32Address ParseBech32 Bech32HRP bech32Addr =
    (case ParseBech32 bech32Addr of
       Inl err \<Rightarrow> Inl (ErrInvalidParameter ''Invalid bech32 address provided!'')
     | Inr (hrp, bech32Address) \<Rightarrow>
        if hrp \<noteq> Bech32HRP
        then Inl (ErrInvalidParameter
               ''Invalid bech32 address provided! Address does not start with "%s".'')
        else Inr bech32Address)\<close>

definition isAlreadyinQueue :: "string \<Rightarrow> Faucet \<Rightarrow> bool" where
  "isAlreadyinQueue bech32Addr f = (map_of (queueMap f) bech32Addr \<noteq> None)"

text \<open>Lines 404 to 412 of \<open>Enqueue\<close>: the amount by the balance of the target address. The
  argument is the result of \<open>computeUnlockableAddressBalanceFunc(addr)\<close>.\<close>

definition Enqueue_amount :: "Options \<Rightarrow> error + BaseToken \<Rightarrow> error + BaseToken" where
  "Enqueue_amount opts balanceResult =
    (case balanceResult of
       Inl err \<Rightarrow> Inr (baseTokenAmount opts)
     | Inr balance \<Rightarrow>
        if balance \<ge> baseTokenAmount opts
        then (if balance \<ge> baseTokenAmountMaxTarget opts
              then Inl (ErrInvalidParameter ''You already have enough funds on your address.'')
              else Inr (baseTokenAmountSmall opts))
        else Inr (baseTokenAmount opts))"

text \<open>Lines 416 to 443 of \<open>Enqueue\<close>, under the write lock. The \<open>select\<close> with a \<open>default\<close>
  branch sends to the channel when it holds fewer than 5000 items.\<close>

definition Enqueue_commit ::
  "string \<Rightarrow> Address \<Rightarrow> BaseToken \<Rightarrow> Faucet \<Rightarrow> (error + EnqueueResponse) \<times> Faucet" where
  "Enqueue_commit bech32Addr addr amount f =
    (if amount > faucetBalance f
     then (Inl (ErrInternalServerError
             ''Faucet does not have enough funds to process your request. Please try again later!''), f)
     else
       (let request = \<lparr> Bech32 = bech32Addr, BaseTokenAmount = amount, Address = addr \<rparr>
        in if length (queue f) < queueCapacity
           then
             (let f' = f \<lparr> queue := queue f @ [request],
                           faucetBalance := faucetBalance f - amount,
                           queueMap := AList.update bech32Addr request (queueMap f) \<rparr>
              in (Inr \<lparr> Address = bech32Addr, WaitingRequests = int (length (queueMap f')) \<rparr>, f'))
           else (Inl (ErrInternalServerError
                   ''Faucet queue is full. Please try again later!''), f)))"

text \<open>\<open>Enqueue\<close>. The third argument is the result of \<open>isNodeHealthyFunc()\<close>, the fourth the
  injected balance query. The returned state is the state the call leaves.\<close>

definition Enqueue ::
  "(string \<Rightarrow> error + (string \<times> Address)) \<Rightarrow> string \<Rightarrow> bool \<Rightarrow> (Address \<Rightarrow> error + BaseToken)
    \<Rightarrow> Options \<Rightarrow> string \<Rightarrow> Faucet \<Rightarrow> (error + EnqueueResponse) \<times> Faucet" where
  "Enqueue ParseBech32 Bech32HRP nodeHealthy computeUnlockableAddressBalanceFunc opts bech32Addr f =
    (case parseBech32Address ParseBech32 Bech32HRP bech32Addr of
       Inl err \<Rightarrow> (Inl err, f)
     | Inr addr \<Rightarrow>
        if \<not> nodeHealthy
        then (Inl (ErrInternalServerError
                ''Faucet node is not synchronized/healthy. Please try again later!''), f)
        else if isAlreadyinQueue bech32Addr f
        then (Inl (ErrInvalidParameter ''Address is already in the queue.''), f)
        else
          (case Enqueue_amount opts (computeUnlockableAddressBalanceFunc addr) of
             Inl err \<Rightarrow> (Inl err, f)
           | Inr amount \<Rightarrow> Enqueue_commit bech32Addr addr amount f))"

section \<open>Queue bookkeeping\<close>

definition clearRequestWithoutLocking :: "queueItem \<Rightarrow> Faucet \<Rightarrow> Faucet" where
  "clearRequestWithoutLocking request f =
     f \<lparr> queueMap := AList.delete (Bech32 request) (queueMap f) \<rparr>"

fun clearRequestsWithoutLocking :: "queueItem list \<Rightarrow> Faucet \<Rightarrow> Faucet" where
  "clearRequestsWithoutLocking [] f = f"
| "clearRequestsWithoutLocking (request # batchedRequests) f =
     clearRequestsWithoutLocking batchedRequests (clearRequestWithoutLocking request f)"

fun readdRequestsWithoutLocking :: "queueItem list \<Rightarrow> Faucet \<Rightarrow> Faucet" where
  "readdRequestsWithoutLocking [] f = f"
| "readdRequestsWithoutLocking (request # batchedRequests) f =
     readdRequestsWithoutLocking batchedRequests
       (if length (queue f) < queueCapacity
        then f \<lparr> queue := queue f @ [request] \<rparr>
        else clearRequestWithoutLocking request f)"

definition setPendingTransactionWithoutLocking :: "pendingTransaction ptr \<Rightarrow> Faucet \<Rightarrow> Faucet" where
  "setPendingTransactionWithoutLocking pending f = f \<lparr> pendingTransaction := pending \<rparr>"

definition clearPendingTransactionWithoutLocking :: "Faucet \<Rightarrow> Faucet" where
  "clearPendingTransactionWithoutLocking f = f \<lparr> pendingTransaction := None \<rparr>"

text \<open>The next two read \<open>f.pendingTransaction.QueuedItems\<close> without a nil check: on a nil slot
  the Go runtime panics.\<close>

definition clearPendingRequestsWithoutLocking :: "Faucet \<Rightarrow> panic + Faucet" where
  "clearPendingRequestsWithoutLocking f =
    (case pendingTransaction f of
       None \<Rightarrow> Inl PanicNilDereference
     | Some (p, tx) \<Rightarrow>
         Inr (clearPendingTransactionWithoutLocking (clearRequestsWithoutLocking (QueuedItems tx) f)))"

definition readdPendingRequestsWithoutLocking :: "Faucet \<Rightarrow> panic + Faucet" where
  "readdPendingRequestsWithoutLocking f =
    (case pendingTransaction f of
       None \<Rightarrow> Inl PanicNilDereference
     | Some (p, tx) \<Rightarrow>
         Inr (clearPendingTransactionWithoutLocking (readdRequestsWithoutLocking (QueuedItems tx) f)))"

section \<open>Lifecycle of the pending transaction\<close>

text \<open>\<open>api.TransactionState\<close> is a byte with six named values; \<open>TransactionStateOther\<close> stands
  for every other value of the byte.\<close>

datatype TransactionState =
    TransactionStateUnknown
  | TransactionStatePending
  | TransactionStateAccepted
  | TransactionStateCommitted
  | TransactionStateFinalized
  | TransactionStateFailed
  | TransactionStateOther nat

record TransactionMetadataResponse =
  TransactionState :: TransactionState
  TransactionFailureReason :: nat

text \<open>
  The closure \<open>checkPendingTransaction\<close> of \<open>checkPendingTransactionState\<close>. It returns
  \<open>(clearPending, readdPending, logMessage, softError)\<close>, or panics. The injected
  \<open>fetchTransactionMetadataFunc\<close> returns an error, a nil response or a response.
\<close>

definition checkPendingTransaction_metadata ::
  "(TransactionID \<Rightarrow> error + TransactionMetadataResponse option) \<Rightarrow> pendingTransaction ptr
    \<Rightarrow> panic + (bool \<times> bool \<times> string \<times> error option)" where
  "checkPendingTransaction_metadata fetchTransactionMetadataFunc pendingTx =
    (case pendingTx of
       None \<Rightarrow> Inr (False, False, ''no pending transaction found'', None)
     | Some (p, tx) \<Rightarrow>
        (case fetchTransactionMetadataFunc (TransactionID tx) of
           Inl err \<Rightarrow>
             Inr (False, True, [],
               Some (ErrSoft
                 ''failed to fetch metadata of the pending transaction, blockID: %s, txID: %s''))
         | Inr None \<Rightarrow>
             Inr (False, True, [],
               Some (ErrSoft
                 ''metadata of the pending transaction is unknown, blockID: %s, txID: %s''))
         | Inr (Some metadata) \<Rightarrow>
            (case TransactionState metadata of
               TransactionStateUnknown \<Rightarrow>
                 Inr (False, True, [],
                   Some (ErrSoft
                     ''metadata of the pending transaction is no transaction, blockID: %s, txID: %s''))
             | TransactionStatePending \<Rightarrow>
                 Inr (False, False, ''transaction still pending, blockID: %s, txID: %s'', None)
             | TransactionStateAccepted \<Rightarrow>
                 Inr (True, False, ''transaction successful, blockID: %s, txID: %s'', None)
             | TransactionStateCommitted \<Rightarrow>
                 Inr (True, False, ''transaction successful, blockID: %s, txID: %s'', None)
             | TransactionStateFinalized \<Rightarrow>
                 Inr (True, False, ''transaction successful, blockID: %s, txID: %s'', None)
             | TransactionStateFailed \<Rightarrow>
                 Inr (False, True, [],
                   Some (ErrSoft ''transaction failed, blockID: %s, txID: %s, reason: %d''))
             | TransactionStateOther n \<Rightarrow> Inl PanicUnknownTransactionState)))"

text \<open>
  \<open>checkPendingTransactionState\<close>. The snapshot \<open>pendingTx\<close> is read under the read lock;
  \<open>f\<close> is the state found once the write lock is held, so that another holder of the lock
  may have changed the slot in between. The slot is compared by pointer. Logging is left out.
\<close>

definition checkPendingTransactionState ::
  "(TransactionID \<Rightarrow> error + TransactionMetadataResponse option) \<Rightarrow> pendingTransaction ptr
    \<Rightarrow> Faucet \<Rightarrow> panic + Faucet" where
  "checkPendingTransactionState fetchTransactionMetadataFunc pendingTx f =
    (case checkPendingTransaction_metadata fetchTransactionMetadataFunc pendingTx of
       Inl pnc \<Rightarrow> Inl pnc
     | Inr (clearPending, readdPending, logMessage, softError) \<Rightarrow>
        if \<not> (clearPending \<or> readdPending) then Inr f
        else
          (case (if map_option fst pendingTx \<noteq> map_option fst (pendingTransaction f)
                 then checkPendingTransaction_metadata fetchTransactionMetadataFunc
                        (pendingTransaction f)
                 else Inr (clearPending, readdPending, logMessage, softError)) of
             Inl pnc \<Rightarrow> Inl pnc
           | Inr (clearPending, readdPending, logMessage, softError) \<Rightarrow>
              if clearPending then clearPendingRequestsWithoutLocking f
              else if readdPending then readdPendingRequestsWithoutLocking f
              else Inr f))"

text \<open>The loop over \<open>pendingTx.ConsumedInputs\<close> of \<open>ApplyAcceptedTransaction\<close>, which returns
  at the first input found in \<open>consumedOutputs\<close>.\<close>

fun inputSpent :: "OutputID list \<Rightarrow> OutputID set \<Rightarrow> bool" where
  "inputSpent [] consumedOutputs = False"
| "inputSpent (consumedInput # rest) consumedOutputs =
     (if consumedInput \<in> consumedOutputs then True else inputSpent rest consumedOutputs)"

text \<open>The closure \<open>checkPendingTransaction\<close> of \<open>ApplyAcceptedTransaction\<close>, which returns
  \<open>(clearPending, readdPending, logMessage)\<close>.\<close>

definition checkPendingTransaction_ledger ::
  "OutputID set \<Rightarrow> OutputID set \<Rightarrow> pendingTransaction ptr \<Rightarrow> bool \<times> bool \<times> string" where
  "checkPendingTransaction_ledger createdOutputs consumedOutputs pendingTx =
    (case pendingTx of
       None \<Rightarrow> (False, False, ''no pending transaction found'')
     | Some (p, tx) \<Rightarrow>
        (let txOutputIDIndexZero = (TransactionID tx, 0)
         in if txOutputIDIndexZero \<in> createdOutputs
            then (True, False, ''transaction successful'')
            else if inputSpent (ConsumedInputs tx) consumedOutputs
            then (False, True, ''transaction conflicting, inputs consumed in another transaction'')
            else (False, False, [])))"

definition ApplyAcceptedTransaction ::
  "OutputID set \<Rightarrow> OutputID set \<Rightarrow> pendingTransaction ptr \<Rightarrow> Faucet \<Rightarrow> panic + Faucet" where
  "ApplyAcceptedTransaction createdOutputs consumedOutputs pendingTx f =
    (case checkPendingTransaction_ledger createdOutputs consumedOutputs pendingTx of
       (clearPending, readdPending, logMessage) \<Rightarrow>
        if \<not> (clearPending \<or> readdPending) then Inr f
        else
          (case (if map_option fst pendingTx \<noteq> map_option fst (pendingTransaction f)
                 then checkPendingTransaction_ledger createdOutputs consumedOutputs
                        (pendingTransaction f)
                 else (clearPending, readdPending, logMessage)) of
             (clearPending, readdPending, logMessage) \<Rightarrow>
              if clearPending then clearPendingRequestsWithoutLocking f
              else if readdPending then readdPendingRequestsWithoutLocking f
              else Inr f))"

section \<open>Batch filtering\<close>

text \<open>
  The loop of \<open>processRequestsWithoutLocking\<close> over the batch. Its state is
  \<open>(collectedRequestsCounter, balance, processedBatchedRequests, unprocessedBatchedRequests)\<close>
  and the faucet. \<open>MaxOutputsCount\<close> is the constant \<open>iotago.MaxOutputsCount\<close>, \<open>nodeHealthy\<close>
  the result of the one call of \<open>isNodeHealthyFunc()\<close> before the loop. The counters are Go
  \<open>int\<close>s that stay far below \<open>2 ^ 63\<close>.
\<close>

fun processRequests_loop ::
  "int \<Rightarrow> bool \<Rightarrow> queueItem list \<Rightarrow> int \<times> BaseToken \<times> queueItem list \<times> queueItem list \<Rightarrow> Faucet
    \<Rightarrow> (int \<times> BaseToken \<times> queueItem list \<times> queueItem list) \<times> Faucet" where
  "processRequests_loop MaxOutputsCount nodeHealthy [] st f = (st, f)"
| "processRequests_loop MaxOutputsCount nodeHealthy (request # batchedRequests)
      (collectedRequestsCounter, balance, processed, unprocessed) f =
    (if \<not> nodeHealthy
     then processRequests_loop MaxOutputsCount nodeHealthy batchedRequests
            (collectedRequestsCounter, balance, processed, unprocessed @ [request]) f
     else if collectedRequestsCounter \<ge> MaxOutputsCount - 1
     then processRequests_loop MaxOutputsCount nodeHealthy batchedRequests
            (collectedRequestsCounter, balance, processed, unprocessed @ [request]) f
     else if balance < BaseTokenAmount request
     then processRequests_loop MaxOutputsCount nodeHealthy batchedRequests
            (collectedRequestsCounter, balance, processed, unprocessed)
            (clearRequestWithoutLocking request f)
     else processRequests_loop MaxOutputsCount nodeHealthy batchedRequests
            (collectedRequestsCounter + 1, balance - BaseTokenAmount request,
             processed @ [request], unprocessed) f)"

definition processRequestsWithoutLocking ::
  "int \<Rightarrow> bool \<Rightarrow> int \<Rightarrow> BaseToken \<Rightarrow> queueItem list \<Rightarrow> Faucet \<Rightarrow> queueItem list \<times> Faucet" where
  "processRequestsWithoutLocking MaxOutputsCount nodeHealthy collectedRequestsCounter balance
      batchedRequests f =
    (case processRequests_loop MaxOutputsCount nodeHealthy batchedRequests
            (collectedRequestsCounter, balance, [], []) f of
       ((counter', balance', processedBatchedRequests, unprocessedBatchedRequests), f') \<Rightarrow>
         (processedBatchedRequests, readdRequestsWithoutLocking unprocessedBatchedRequests f'))"

section \<open>Transaction assembly\<close>

text \<open>The transaction builder, reduced to what \<open>createTransactionBuilder\<close> puts into it.\<close>

record TxInput =
  UnlockTarget :: Address
  InputID :: OutputID
  Input :: BasicOutput

record TransactionBuilder =
  taggedDataTag :: string
  inputs :: "TxInput list"
  outputs :: "BasicOutput list"

definition AddInput :: "TxInput \<Rightarrow> TransactionBuilder \<Rightarrow> TransactionBuilder" where
  "AddInput i b = b \<lparr> inputs := inputs b @ [i] \<rparr>"

definition AddOutput :: "BasicOutput \<Rightarrow> TransactionBuilder \<Rightarrow> TransactionBuilder" where
  "AddOutput out b = b \<lparr> outputs := outputs b @ [out] \<rparr>"

text \<open>The checked arithmetic of \<open>safemath\<close> on \<open>uint64\<close>: the exact result, or an error when it
  does not fit.\<close>

definition SafeMul :: "64 word \<Rightarrow> 64 word \<Rightarrow> error + 64 word" where
  "SafeMul a b = (if unat a * unat b < 2 ^ 64 then Inr (a * b) else Inl ErrIntegerOverflow)"

definition SafeSub :: "64 word \<Rightarrow> 64 word \<Rightarrow> error + 64 word" where
  "SafeSub a b = (if b \<le> a then Inr (a - b) else Inl ErrIntegerOverflow)"

text \<open>
  The closure \<open>manaPayoutPerOutput\<close>. Its second argument is the result of
  \<open>txBuilder.CalculateAvailableManaInputs(f.getLatestSlotFunc())\<close>, reduced to the field
  \<open>UnboundStoredMana\<close>; its third is \<open>len(batchedRequests)\<close>. It returns the payout and the
  soft errors it logged.
\<close>

definition manaPayoutPerOutput :: "Options \<Rightarrow> error + Mana \<Rightarrow> nat \<Rightarrow> Mana \<times> error list" where
  "manaPayoutPerOutput opts availableManaInputs len =
    (case availableManaInputs of
       Inl err \<Rightarrow> (0, [ErrSoft ''failed to calculate available mana balance''])
     | Inr UnboundStoredMana \<Rightarrow>
        (case SafeMul (of_nat len) (manaAmount opts) of
           Inl err \<Rightarrow> (0, [ErrSoft ''failed to calculate required total mana for payouts''])
         | Inr totalManaPayouts \<Rightarrow>
            (case SafeSub UnboundStoredMana totalManaPayouts of
               Inl err \<Rightarrow>
                 (0, [ErrSoft ''not enough mana left in the faucet to do the payouts: %d < %d''])
             | Inr unboundStoredManaRemainder \<Rightarrow>
                 if unboundStoredManaRemainder \<le> manaAmountMinFaucet opts
                 then (0, [ErrSoft ''not enough mana left in the faucet: %d < %d''])
                 else (manaAmount opts, []))))"

text \<open>
  The first loop of \<open>createTransactionBuilder\<close>, over the unspent outputs. Its state is
  \<open>(outputCount, remainderAmount, txBuilder, consumedInputs)\<close>. \<open>remainderAmount\<close> is an
  \<open>int64\<close>: a 64 bit word read as two's complement, into which \<open>int64(...)\<close> casts an amount
  bit for bit.
\<close>

fun addInputs ::
  "Address \<Rightarrow> UTXOBasicOutput list \<Rightarrow> int \<times> 64 word \<times> TransactionBuilder \<times> OutputID list
    \<Rightarrow> int \<times> 64 word \<times> TransactionBuilder \<times> OutputID list" where
  "addInputs address [] st = st"
| "addInputs address (unspentOutput # unspentOutputs)
      (outputCount, remainderAmount, txBuilder, consumedInputs) =
    addInputs address unspentOutputs
      (outputCount + 1,
       remainderAmount + Amount (Output unspentOutput),
       AddInput \<lparr> UnlockTarget = address, InputID = OutputID unspentOutput,
                  Input = Output unspentOutput \<rparr> txBuilder,
       consumedInputs @ [OutputID unspentOutput])"

text \<open>The second loop, over the batched requests, with its two \<open>break\<close>s. Its state is
  \<open>(outputCount, remainderAmount, remainderOutputIndex, txBuilder)\<close>.\<close>

fun addRequestOutputs ::
  "int \<Rightarrow> Mana \<Rightarrow> queueItem list \<Rightarrow> int \<times> 64 word \<times> int \<times> TransactionBuilder
    \<Rightarrow> int \<times> 64 word \<times> int \<times> TransactionBuilder" where
  "addRequestOutputs MaxOutputsCount manaPayout [] st = st"
| "addRequestOutputs MaxOutputsCount manaPayout (req # batchedRequests)
      (outputCount, remainderAmount, remainderOutputIndex, txBuilder) =
    (let outputCount = outputCount + 1
     in if outputCount \<ge> MaxOutputsCount - 1
        then (outputCount, remainderAmount, remainderOutputIndex, txBuilder)
        else if remainderAmount = 0
        then (outputCount, remainderAmount, remainderOutputIndex, txBuilder)
        else
          (let baseTokenAmount =
                 (if remainderAmount <s BaseTokenAmount req
                  then remainderAmount else BaseTokenAmount req);
               remainderAmount = remainderAmount - baseTokenAmount
           in addRequestOutputs MaxOutputsCount manaPayout batchedRequests
                (outputCount, remainderAmount, remainderOutputIndex + 1,
                 AddOutput \<lparr> Amount = baseTokenAmount, Mana = manaPayout,
                             UnlockAddress = queueItem.Address req \<rparr> txBuilder)))"

text \<open>
  \<open>createTransactionBuilder\<close>. \<open>address\<close> is the address of the faucet,
  \<open>CalculateAvailableManaInputs\<close> the method of the builder and \<open>latestSlot\<close> the result of
  \<open>getLatestSlotFunc()\<close>. It returns the builder, the consumed inputs and the index of the
  remainder output, and the soft errors it logged.
\<close>

definition createTransactionBuilder ::
  "int \<Rightarrow> Address \<Rightarrow> Options \<Rightarrow> (TransactionBuilder \<Rightarrow> SlotIndex \<Rightarrow> error + Mana) \<Rightarrow> SlotIndex
    \<Rightarrow> UTXOBasicOutput list \<Rightarrow> queueItem list
    \<Rightarrow> (TransactionBuilder \<times> OutputID list \<times> int) \<times> error list" where
  "createTransactionBuilder MaxOutputsCount address opts CalculateAvailableManaInputs latestSlot
      unspentOutputs batchedRequests =
    (case addInputs address unspentOutputs
            (0, 0, \<lparr> taggedDataTag = tagMessage opts, inputs = [], outputs = [] \<rparr>, []) of
       (outputCount, remainderAmount, txBuilder, consumedInputs) \<Rightarrow>
        (case manaPayoutPerOutput opts (CalculateAvailableManaInputs txBuilder latestSlot)
                (length batchedRequests) of
           (manaPayout, logged) \<Rightarrow>
            (case addRequestOutputs MaxOutputsCount manaPayout batchedRequests
                    (outputCount, remainderAmount, 0, txBuilder) of
               (outputCount', remainderAmount', remainderOutputIndex, txBuilder') \<Rightarrow>
                 ((if 0 <s remainderAmount'
                   then AddOutput \<lparr> Amount = remainderAmount', Mana = 0,
                                    UnlockAddress = address \<rparr> txBuilder'
                   else txBuilder',
                   consumedInputs, remainderOutputIndex), logged))))"

section \<open>The behaviour in the words of the specification\<close>

text \<open>The sum of the amounts of the unspent outputs and the sum of the queued amounts, over
  the integers.\<close>

definition sumUnspent :: "UTXOBasicOutput list \<Rightarrow> int" where
  "sumUnspent outs = (\<Sum>out\<leftarrow>outs. uint (Amount (Output out)))"

definition sumQueued :: "(string \<times> queueItem) list \<Rightarrow> int" where
  "sumQueued qm = (\<Sum>kv\<leftarrow>qm. uint (BaseTokenAmount (snd kv)))"

text \<open>
  The three decisions of the lifecycle resolver and what they do, in the words of the
  specification. \<open>clear_spec\<close> removes the batched items from the address-index and nulls
  the pending slot. \<open>readd_spec\<close> sends the batched items to the channel without blocking:
  the first items go in while there is room, the address of every later item is removed
  from the address-index; then the pending slot is nulled.
\<close>

datatype decision = Clear | Readd | Keep

definition clear_spec :: "queueItem list \<Rightarrow> Faucet \<Rightarrow> Faucet" where
  "clear_spec items f =
     f \<lparr> queueMap := filter (\<lambda>kv. fst kv \<notin> Bech32 ` set items) (queueMap f),
         pendingTransaction := None \<rparr>"

definition readd_spec :: "queueItem list \<Rightarrow> Faucet \<Rightarrow> Faucet" where
  "readd_spec items f =
     f \<lparr> queue := queue f @ take (queueCapacity - length (queue f)) items,
         queueMap := filter
           (\<lambda>kv. fst kv \<notin> Bech32 ` set (drop (queueCapacity - length (queue f)) items))
           (queueMap f),
         pendingTransaction := None \<rparr>"

fun apply_decision :: "decision \<Rightarrow> queueItem list \<Rightarrow> Faucet \<Rightarrow> Faucet" where
  "apply_decision Clear items f = clear_spec items f"
| "apply_decision Readd items f = readd_spec items f"
| "apply_decision Keep items f = f"

text \<open>The decision of the periodic metadata check, case by case as the specification
  lists them.\<close>

definition decide_metadata ::
  "error + TransactionMetadataResponse option \<Rightarrow> panic + decision" where
  "decide_metadata fetched =
    (case fetched of
       Inl err \<Rightarrow> Inr Readd
     | Inr None \<Rightarrow> Inr Readd
     | Inr (Some metadata) \<Rightarrow>
         if TransactionState metadata = TransactionStateUnknown then Inr Readd
         else if TransactionState metadata = TransactionStatePending then Inr Keep
         else if TransactionState metadata \<in>
                   {TransactionStateAccepted, TransactionStateCommitted, TransactionStateFinalized}
         then Inr Clear
         else if TransactionState metadata = TransactionStateFailed then Inr Readd
         else Inl PanicUnknownTransactionState)"

text \<open>The decision of the ledger-update handler as the specification states it.\<close>

definition decide_ledger ::
  "OutputID set \<Rightarrow> OutputID set \<Rightarrow> pendingTransaction \<Rightarrow> decision" where
  "decide_ledger created consumed tx =
    (if (TransactionID tx, 0) \<in> created then Clear
     else if set (ConsumedInputs tx) \<inter> consumed \<noteq> {} then Readd
     else Keep)"

text \<open>The decision that a pair \<open>(clearPending, readdPending)\<close> of the code stands for.\<close>

definition flags_decision :: "bool \<Rightarrow> bool \<Rightarrow> decision" where
  "flags_decision clearPending readdPending =
     (if clearPending then Clear else if readdPending then Readd else Keep)"

text \<open>The states a lifecycle entry point can leave: the state it found, or that state
  after a clear or a readd of the pending transaction in the slot.\<close>

definition resolved :: "Faucet \<Rightarrow> (panic + Faucet) list" where
  "resolved f =
    Inr f #
    (case pendingTransaction f of
       None \<Rightarrow> []
     | Some (p, tx) \<Rightarrow>
         [Inr (clear_spec (QueuedItems tx) f), Inr (readd_spec (QueuedItems tx) f)])"

text \<open>
  Batch filtering in the words of the specification: the verdict on each request of the
  batch, in arrival order, from the running counter and balance.
\<close>

datatype verdict = Accept | Defer | Drop

fun filter_spec :: "int \<Rightarrow> bool \<Rightarrow> int \<Rightarrow> BaseToken \<Rightarrow> queueItem list \<Rightarrow> verdict list" where
  "filter_spec MaxOutputs healthy counter balance [] = []"
| "filter_spec MaxOutputs healthy counter balance (request # batch) =
    (if \<not> healthy then Defer # filter_spec MaxOutputs healthy counter balance batch
     else if counter \<ge> MaxOutputs - 1
     then Defer # filter_spec MaxOutputs healthy counter balance batch
     else if balance < BaseTokenAmount request
     then Drop # filter_spec MaxOutputs healthy counter balance batch
     else Accept # filter_spec MaxOutputs healthy (counter + 1)
                     (balance - BaseTokenAmount request) batch)"

text \<open>The requests of a batch that got a given verdict, in arrival order.\<close>

definition withVerdict :: "verdict \<Rightarrow> verdict list \<Rightarrow> queueItem list \<Rightarrow> queueItem list" where
  "withVerdict v verdicts batch = map fst (filter (\<lambda>rv. snd rv = v) (zip batch verdicts))"


text \<open>The builder after the first loop of \<open>createTransactionBuilder\<close>: the tag and one
  input per unspent output.\<close>

definition txBuilderWithInputs ::
  "Address \<Rightarrow> Options \<Rightarrow> UTXOBasicOutput list \<Rightarrow> TransactionBuilder" where
  "txBuilderWithInputs address opts unspentOutputs =
    \<lparr> taggedDataTag = tagMessage opts,
      inputs = map (\<lambda>u. \<lparr> UnlockTarget = address, InputID = OutputID u, Input = Output u \<rparr>)
                 unspentOutputs,
      outputs = [] \<rparr>"

section \<open>Concrete inputs\<close>

text \<open>The default options of the faucet, and options whose maximum target balance lies below
  the standard amount.\<close>

definition defaultOptions :: Options where
  "defaultOptions =
    \<lparr> baseTokenAmount = 10000000, baseTokenAmountSmall = 1000000,
      baseTokenAmountMaxTarget = 20000000, manaAmount = 1000, manaAmountMinFaucet = 1000000,
      tagMessage = ''FAUCET'' \<rparr>"


text \<open>Options with a per-request mana of \<open>2 ^ 63\<close>.\<close>

definition hugeManaOptions :: Options where
  "hugeManaOptions = defaultOptions \<lparr> manaAmount := 9223372036854775808 \<rparr>"

text \<open>A bech32 parser that accepts every string, with the prefix \<open>rms\<close>.\<close>

definition parseAny :: "string \<Rightarrow> error + (string \<times> Address)" where
  "parseAny bech32Addr = Inr (''rms'', bech32Addr)"

text \<open>A metadata fetch that answers with a given transaction state.\<close>

definition metadataOf ::
  "TransactionState \<Rightarrow> TransactionID \<Rightarrow> error + TransactionMetadataResponse option" where
  "metadataOf st txid = Inr (Some \<lparr> TransactionState = st, TransactionFailureReason = 0 \<rparr>)"

text \<open>One unspent output of 100000000 base tokens.\<close>

definition oneOutput :: "UTXOBasicOutput list" where
  "oneOutput =
    [\<lparr> OutputID = (''tx0'', 0),
       Output = \<lparr> Amount = 100000000, Mana = 0, UnlockAddress = ''faucet'' \<rparr> \<rparr>]"



text \<open>Two unspent outputs of \<open>2 ^ 63\<close> base tokens each.\<close>

definition twoHugeOutputs :: "UTXOBasicOutput list" where
  "twoHugeOutputs =
    [\<lparr> OutputID = (''tx1'', 0),
       Output = \<lparr> Amount = 9223372036854775808, Mana = 0, UnlockAddress = ''faucet'' \<rparr> \<rparr>,
     \<lparr> OutputID = (''tx2'', 0),
       Output = \<lparr> Amount = 9223372036854775808, Mana = 0, UnlockAddress = ''faucet'' \<rparr> \<rparr>]"

text \<open>Three requests, and the batch of the three.\<close>

definition itemA :: queueItem where
  "itemA = \<lparr> Bech32 = ''addr_A'', BaseTokenAmount = 10000000, Address = ''addr_A'' \<rparr>"

definition itemB :: queueItem where
  "itemB = \<lparr> Bech32 = ''addr_B'', BaseTokenAmount = 1000000, Address = ''addr_B'' \<rparr>"

definition itemC :: queueItem where
  "itemC = \<lparr> Bech32 = ''addr_C'', BaseTokenAmount = 10000000, Address = ''addr_C'' \<rparr>"

definition batch3 :: "queueItem list" where
  "batch3 = [itemA, itemB, itemC]"

text \<open>A faucet with a projection of 100000000 and nothing queued.\<close>

definition fundedFaucet :: Faucet where
  "fundedFaucet = init \<lparr> faucetBalance := 100000000 \<rparr>"

text \<open>A faucet whose channel is full: 5000 queued requests.\<close>

definition fullFaucet :: Faucet where
  "fullFaucet =
    fundedFaucet \<lparr> queue := replicate 5000
      \<lparr> Bech32 = ''addr_Z'', BaseTokenAmount = 1, Address = ''addr_Z'' \<rparr> \<rparr>"

text \<open>A faucet with a projection of 5000000 that holds the three requests in its
  address-index and nothing in its channel.\<close>

definition indexedFaucet :: Faucet where
  "indexedFaucet =
    \<lparr> faucetBalance = 5000000, queue = [],
      queueMap = [(''addr_A'', itemA), (''addr_B'', itemB), (''addr_C'', itemC)],
      pendingTransaction = None \<rparr>"

text \<open>A faucet with a pending transaction \<open>T\<close> at address 1 that batches the requests of
  \<open>addr_A\<close> and \<open>addr_B\<close> and consumes the output \<open>(tx0, 0)\<close>, and with the request of
  \<open>addr_C\<close> in the channel.\<close>

definition pendingT :: pendingTransaction where
  "pendingT = \<lparr> BlockID = ''B'', TransactionID = ''T'', QueuedItems = [itemA, itemB],
                ConsumedInputs = [(''tx0'', 0)] \<rparr>"

definition armedFaucet :: Faucet where
  "armedFaucet =
    \<lparr> faucetBalance = 79000000, queue = [itemC],
      queueMap = [(''addr_A'', itemA), (''addr_B'', itemB), (''addr_C'', itemC)],
      pendingTransaction = Some (1, pendingT) \<rparr>"

section \<open>Balance projection: properties\<close>

lemma uint_foldl_add:
  "uint (foldl (\<lambda>b x. b + g x) (a :: 64 word) xs) = (uint a + (\<Sum>x\<leftarrow>xs. uint (g x))) mod 2 ^ 64"
proof (induction xs arbitrary: a)
  case Nil
  have "uint a < 2 ^ 64" using uint_bounded [of a] by simp
  then show ?case by (simp add: uint_nonnegative)
next
  case (Cons x xs)
  have "uint (foldl (\<lambda>b x. b + g x) (a + g x) xs)
        = (uint (a + g x) + (\<Sum>x\<leftarrow>xs. uint (g x))) mod 2 ^ 64"
    by (rule Cons.IH)
  also have "uint (a + g x) = (uint a + uint (g x)) mod 2 ^ 64"
    by (simp add: uint_word_ariths)
  finally show ?case
    by (simp add: mod_add_left_eq add.assoc)
qed

lemma uint_monus:
  "uint (if y \<le> x then x - y else (0 :: 64 word)) = max 0 (uint x - uint y)"
proof (cases "y \<le> x")
  case True
  then have "uint y \<le> uint x" by (simp add: word_le_def)
  then have "uint (x - y) = uint x - uint y" by (simp add: uint_sub_lem)
  with True \<open>uint y \<le> uint x\<close> show ?thesis by simp
next
  case False
  then have "uint x < uint y" by (simp add: word_le_def)
  with False show ?thesis by simp
qed

text \<open>
  C1 (amended). For every list of unspent outputs and every queue map, when the two injected
  reads succeed the projection is
  \<open>max 0 (max 0 (S mod 2 ^ 64 - reserved) - Q mod 2 ^ 64)\<close>, where \<open>S\<close> is the sum of the
  unspent amounts, \<open>Q\<close> the sum of the queued amounts and \<open>reserved\<close> the minimum storage
  deposit of the empty basic output: the two sums are accumulated in \<open>uint64\<close>, so each is
  taken modulo \<open>2 ^ 64\<close>. When both sums are below \<open>2 ^ 64\<close> this is the formula of the
  claim, \<open>max 0 (max 0 (S - reserved) - Q)\<close>. The projection is never negative.
\<close>

theorem balance_projection:
  "\<exists>b. collectUnlockableFaucetOutputsAndBalanceFuncWithoutLocking (Inr outs) (Inr dep) qm
         = Inr (outs, b)
     \<and> 0 \<le> uint b
     \<and> uint b = max 0 (max 0 (sumUnspent outs mod 2 ^ 64 - uint dep) - sumQueued qm mod 2 ^ 64)
     \<and> (sumUnspent outs < 2 ^ 64 \<and> sumQueued qm < 2 ^ 64 \<longrightarrow>
          uint b = max 0 (max 0 (sumUnspent outs - uint dep) - sumQueued qm))"
proof -
  let ?b0 = "foldl (\<lambda>b out. b + Amount (Output out)) (0 :: 64 word) outs"
  let ?q = "foldl (\<lambda>b kv. b + BaseTokenAmount (snd kv)) (0 :: 64 word) qm"
  let ?b1 = "if dep \<le> ?b0 then ?b0 - dep else 0"
  let ?b2 = "if ?q \<le> ?b1 then ?b1 - ?q else 0"
  have b0: "uint ?b0 = sumUnspent outs mod 2 ^ 64"
    using uint_foldl_add [of "\<lambda>out. Amount (Output out)" 0 outs]
    by (simp add: sumUnspent_def)
  have q: "uint ?q = sumQueued qm mod 2 ^ 64"
    using uint_foldl_add [of "\<lambda>kv. BaseTokenAmount (snd kv)" 0 qm]
    by (simp add: sumQueued_def)
  have b1: "uint ?b1 = max 0 (sumUnspent outs mod 2 ^ 64 - uint dep)"
    using uint_monus [of dep ?b0] b0 by simp
  have "uint ?b2 = max 0 (uint ?b1 - uint ?q)"
    by (rule uint_monus)
  with b1 q have b2:
    "uint ?b2 = max 0 (max 0 (sumUnspent outs mod 2 ^ 64 - uint dep) - sumQueued qm mod 2 ^ 64)"
    by simp
  have s0: "0 \<le> sumUnspent outs"
    unfolding sumUnspent_def by (rule sum_list_nonneg) auto
  have q0: "0 \<le> sumQueued qm"
    unfolding sumQueued_def by (rule sum_list_nonneg) auto
  have nowrap: "sumUnspent outs < 2 ^ 64 \<and> sumQueued qm < 2 ^ 64 \<longrightarrow>
          uint ?b2 = max 0 (max 0 (sumUnspent outs - uint dep) - sumQueued qm)"
    using b2 s0 q0 by simp
  have run: "collectUnlockableFaucetOutputsAndBalanceFuncWithoutLocking (Inr outs) (Inr dep) qm
        = Inr (outs, ?b2)"
    by (simp add: collectUnlockableFaucetOutputsAndBalanceFuncWithoutLocking_def Let_def)
  have nonneg: "0 \<le> uint ?b2" by (rule uint_nonnegative)
  show ?thesis
    by (rule exI [of _ ?b2], intro conjI) (rule run nonneg b2 nowrap)+
qed

theorem balance_projection_witness:
  "sumUnspent oneOutput < 2 ^ 64 \<and> sumQueued [(''addr_A'', itemA)] < 2 ^ 64
   \<and> collectUnlockableFaucetOutputsAndBalanceFuncWithoutLocking (Inr oneOutput) (Inr 42600)
        [(''addr_A'', itemA)] = Inr (oneOutput, 89957400)"
proof -
  have h: "sumUnspent oneOutput < 2 ^ 64 \<and> sumQueued [(''addr_A'', itemA)] < 2 ^ 64"
    by (simp add: sumUnspent_def sumQueued_def oneOutput_def itemA_def)
  from balance_projection [of oneOutput 42600 "[(''addr_A'', itemA)]"]
  obtain b where
    r: "collectUnlockableFaucetOutputsAndBalanceFuncWithoutLocking (Inr oneOutput) (Inr 42600)
        [(''addr_A'', itemA)] = Inr (oneOutput, b)"
    and n: "sumUnspent oneOutput < 2 ^ 64 \<and> sumQueued [(''addr_A'', itemA)] < 2 ^ 64 \<longrightarrow>
          uint b = max 0 (max 0 (sumUnspent oneOutput - uint (42600 :: 64 word))
                           - sumQueued [(''addr_A'', itemA)])"
    by blast
  from n h have "uint b = 89957400"
    by (simp add: sumUnspent_def sumQueued_def oneOutput_def itemA_def)
  then have "word_of_int (uint b) = (word_of_int 89957400 :: 64 word)" by (simp only:)
  then have "b = 89957400" by simp
  with r h show ?thesis by simp
qed

text \<open>
  C1 as stated fails when a sum wraps: for two unspent outputs of \<open>2 ^ 63\<close> each, a reserved
  deposit of 1000 and an empty queue map, the code computes the projection 0, and the
  formula of the claim gives \<open>2 ^ 64 - 1000\<close>.
\<close>

theorem balance_projection_counterexample:
  "collectUnlockableFaucetOutputsAndBalanceFuncWithoutLocking (Inr twoHugeOutputs) (Inr 1000) []
     = Inr (twoHugeOutputs, 0)
   \<and> max 0 (max 0 (sumUnspent twoHugeOutputs - uint (1000 :: 64 word)) - sumQueued [])
     = 18446744073709550616
   \<and> uint (0 :: 64 word) \<noteq> 18446744073709550616"
  by (simp add: collectUnlockableFaucetOutputsAndBalanceFuncWithoutLocking_def twoHugeOutputs_def
      sumUnspent_def sumQueued_def)

section \<open>Admission: properties\<close>

lemma length_update_fresh:
  "k \<notin> fst ` set al \<Longrightarrow> length (AList.update k v al) = Suc (length al)"
  by (induction al) auto





text \<open>
  C3. The commit step of \<open>Enqueue\<close>: when the amount exceeds the projection it fails with
  the internal server error (insufficient faucet funds) and the state is unchanged; else
  when the channel holds 5000 items it fails with the internal server error (queue full) and
  the state is unchanged; else the request is appended to the channel, the projection
  decreases by exactly the amount, the address-index maps the address to the request and is
  unchanged elsewhere, the pending slot is unchanged, and the response holds the address and
  the size of the address-index, which is one more than before when the address was not in
  it.
\<close>

theorem Enqueue_commit_cases:
  "(faucetBalance f < amount \<longrightarrow>
      Enqueue_commit a addr amount f =
        (Inl (ErrInternalServerError
           ''Faucet does not have enough funds to process your request. Please try again later!''),
         f))
   \<and> (amount \<le> faucetBalance f \<and> queueCapacity \<le> length (queue f) \<longrightarrow>
      Enqueue_commit a addr amount f =
        (Inl (ErrInternalServerError ''Faucet queue is full. Please try again later!''), f))
   \<and> (amount \<le> faucetBalance f \<and> length (queue f) < queueCapacity \<longrightarrow>
      (\<exists>f'. Enqueue_commit a addr amount f =
              (Inr \<lparr> Address = a, WaitingRequests = int (length (queueMap f')) \<rparr>, f')
         \<and> uint (faucetBalance f') = uint (faucetBalance f) - uint amount
         \<and> queue f' = queue f @ [\<lparr> Bech32 = a, BaseTokenAmount = amount, Address = addr \<rparr>]
         \<and> map_of (queueMap f') =
             (map_of (queueMap f))
               (a \<mapsto> \<lparr> Bech32 = a, BaseTokenAmount = amount, Address = addr \<rparr>)
         \<and> pendingTransaction f' = pendingTransaction f
         \<and> (map_of (queueMap f) a = None \<longrightarrow>
               length (queueMap f') = length (queueMap f) + 1)))"
proof (intro conjI impI)
  assume "faucetBalance f < amount"
  then show "Enqueue_commit a addr amount f =
        (Inl (ErrInternalServerError
           ''Faucet does not have enough funds to process your request. Please try again later!''),
         f)"
    by (simp add: Enqueue_commit_def)
next
  assume "amount \<le> faucetBalance f \<and> queueCapacity \<le> length (queue f)"
  then have "\<not> faucetBalance f < amount" and "\<not> length (queue f) < queueCapacity"
    by auto
  then show "Enqueue_commit a addr amount f =
        (Inl (ErrInternalServerError ''Faucet queue is full. Please try again later!''), f)"
    by (simp add: Enqueue_commit_def Let_def)
next
  assume h: "amount \<le> faucetBalance f \<and> length (queue f) < queueCapacity"
  let ?r = "\<lparr> Bech32 = a, BaseTokenAmount = amount, Address = addr \<rparr>"
  let ?f' = "f \<lparr> queue := queue f @ [?r], faucetBalance := faucetBalance f - amount,
                  queueMap := AList.update a ?r (queueMap f) \<rparr>"
  from h have nl: "\<not> faucetBalance f < amount" by auto
  from h have "uint amount \<le> uint (faucetBalance f)" by (simp add: word_le_def)
  then have sub: "uint (faucetBalance f - amount) = uint (faucetBalance f) - uint amount"
    by (simp add: uint_sub_lem)
  have len: "map_of (queueMap f) a = None \<longrightarrow>
      length (AList.update a ?r (queueMap f)) = length (queueMap f) + 1"
  proof
    assume "map_of (queueMap f) a = None"
    then have "a \<notin> fst ` set (queueMap f)" by (simp add: map_of_eq_None_iff)
    then show "length (AList.update a ?r (queueMap f)) = length (queueMap f) + 1"
      by (simp add: length_update_fresh)
  qed
  have e1: "Enqueue_commit a addr amount f =
          (Inr \<lparr> Address = a, WaitingRequests = int (length (queueMap ?f')) \<rparr>, ?f')"
    using h nl by (simp add: Enqueue_commit_def Let_def)
  have e2: "uint (faucetBalance ?f') = uint (faucetBalance f) - uint amount"
    using sub by simp
  have e3: "queue ?f' = queue f @ [?r]" by simp
  have e4: "map_of (queueMap ?f') = (map_of (queueMap f)) (a \<mapsto> ?r)"
    by (simp add: update_conv')
  have e5: "pendingTransaction ?f' = pendingTransaction f" by simp
  have e6: "map_of (queueMap f) a = None \<longrightarrow>
      length (queueMap ?f') = length (queueMap f) + 1"
    using len by simp
  show "\<exists>f'. Enqueue_commit a addr amount f =
              (Inr \<lparr> Address = a, WaitingRequests = int (length (queueMap f')) \<rparr>, f')
         \<and> uint (faucetBalance f') = uint (faucetBalance f) - uint amount
         \<and> queue f' = queue f @ [?r]
         \<and> map_of (queueMap f') = (map_of (queueMap f)) (a \<mapsto> ?r)
         \<and> pendingTransaction f' = pendingTransaction f
         \<and> (map_of (queueMap f) a = None \<longrightarrow>
               length (queueMap f') = length (queueMap f) + 1)"
    by (rule exI [of _ ?f'], intro conjI) (rule e1 e2 e3 e4 e5 e6)+
qed

theorem Enqueue_commit_cases_witness:
  "faucetBalance init < (10000000 :: 64 word)
   \<and> Enqueue_commit ''addr_A'' ''addr_A'' 10000000 init =
        (Inl (ErrInternalServerError
           ''Faucet does not have enough funds to process your request. Please try again later!''),
         init)
   \<and> (10000000 :: 64 word) \<le> faucetBalance fullFaucet
   \<and> queueCapacity \<le> length (queue fullFaucet)
   \<and> Enqueue_commit ''addr_A'' ''addr_A'' 10000000 fullFaucet =
        (Inl (ErrInternalServerError ''Faucet queue is full. Please try again later!''),
         fullFaucet)
   \<and> (10000000 :: 64 word) \<le> faucetBalance fundedFaucet
   \<and> length (queue fundedFaucet) < queueCapacity
   \<and> (\<exists>f'. Enqueue_commit ''addr_A'' ''addr_A'' 10000000 fundedFaucet =
              (Inr \<lparr> Address = ''addr_A'', WaitingRequests = 1 \<rparr>, f')
         \<and> uint (faucetBalance f') = 90000000
         \<and> queue f' =
             [\<lparr> Bech32 = ''addr_A'', BaseTokenAmount = 10000000, Address = ''addr_A'' \<rparr>]
         \<and> pendingTransaction f' = None)"
proof -
  have a: "faucetBalance init < (10000000 :: 64 word)" by (simp add: init_def)
  have b: "(10000000 :: 64 word) \<le> faucetBalance fullFaucet
     \<and> queueCapacity \<le> length (queue fullFaucet)"
    by (simp add: fullFaucet_def fundedFaucet_def init_def queueCapacity_def)
  have c: "(10000000 :: 64 word) \<le> faucetBalance fundedFaucet
     \<and> length (queue fundedFaucet) < queueCapacity"
    by (simp add: fundedFaucet_def init_def queueCapacity_def)
  have d: "map_of (queueMap fundedFaucet) ''addr_A'' = None"
    by (simp add: fundedFaucet_def init_def)
  have e: "uint (faucetBalance fundedFaucet) - uint (10000000 :: 64 word) = 90000000"
    by (simp add: fundedFaucet_def init_def)
  have l: "length (queueMap fundedFaucet) = 0" and q: "queue fundedFaucet = []"
    and p: "pendingTransaction fundedFaucet = None"
    by (simp_all add: fundedFaucet_def init_def)
  note i1 = Enqueue_commit_cases [where f = init and amount = 10000000 and a = "''addr_A''"
      and addr = "''addr_A''", THEN conjunct1, THEN mp, OF a]
  note i2 = Enqueue_commit_cases [where f = fullFaucet and amount = 10000000
      and a = "''addr_A''" and addr = "''addr_A''", THEN conjunct2, THEN conjunct1, THEN mp, OF b]
  note i3 = Enqueue_commit_cases [where f = fundedFaucet and amount = 10000000
      and a = "''addr_A''" and addr = "''addr_A''", THEN conjunct2, THEN conjunct2, THEN mp, OF c]
  from i3 obtain f' where 3:
      "Enqueue_commit ''addr_A'' ''addr_A'' 10000000 fundedFaucet =
         (Inr \<lparr> Address = ''addr_A'', WaitingRequests = int (length (queueMap f')) \<rparr>, f')"
      "uint (faucetBalance f') = uint (faucetBalance fundedFaucet) - uint (10000000 :: 64 word)"
      "queue f' = queue fundedFaucet @
          [\<lparr> Bech32 = ''addr_A'', BaseTokenAmount = 10000000, Address = ''addr_A'' \<rparr>]"
      "pendingTransaction f' = pendingTransaction fundedFaucet"
      "map_of (queueMap fundedFaucet) ''addr_A'' = None \<longrightarrow>
               length (queueMap f') = length (queueMap fundedFaucet) + 1"
    by (elim exE conjE)
  from 3(5) d l have "length (queueMap f') = 1" by simp
  with 3 e q p have 4: "\<exists>f'. Enqueue_commit ''addr_A'' ''addr_A'' 10000000 fundedFaucet =
              (Inr \<lparr> Address = ''addr_A'', WaitingRequests = 1 \<rparr>, f')
         \<and> uint (faucetBalance f') = 90000000
         \<and> queue f' =
             [\<lparr> Bech32 = ''addr_A'', BaseTokenAmount = 10000000, Address = ''addr_A'' \<rparr>]
         \<and> pendingTransaction f' = None"
    by (intro exI [of _ f'] conjI) simp_all
  from a b c i1 i2 4 show ?thesis by (intro conjI) (simp_all only: simp_thms)
qed

text \<open>
  C9 (amended). From the initial state, with one unspent output of 100000000, the default
  options (standard amount 10000000, maximum target 20000000), a target balance of 0 and a
  reserved storage deposit of at most 90000000: the initial projection is computed,
  admitting \<open>addr_A\<close> succeeds with the response \<open>(addr_A, 1)\<close>, and the projection is
  then \<open>90000000 - reserved\<close>, which is also what the balance projector computes from the
  new queue map.
\<close>

theorem admit_scenario:
  assumes "dep \<le> (90000000 :: 64 word)"
  shows "\<exists>f0 f1.
      computeAndSetInitialFaucetBalance (Inr oneOutput) (Inr dep) init = Inr f0
    \<and> Enqueue parseAny ''rms'' True (\<lambda>a. Inr 0) defaultOptions ''addr_A'' f0
        = (Inr \<lparr> Address = ''addr_A'', WaitingRequests = 1 \<rparr>, f1)
    \<and> uint (faucetBalance f1) = 90000000 - uint dep
    \<and> collectUnlockableFaucetOutputsAndBalanceFuncWithoutLocking (Inr oneOutput) (Inr dep)
          (queueMap f1) = Inr (oneOutput, faucetBalance f1)"
proof -
  let ?r = "\<lparr> Bech32 = ''addr_A'', BaseTokenAmount = 10000000, Address = ''addr_A'' \<rparr>"
  let ?f0 = "init \<lparr> faucetBalance := 100000000 - dep \<rparr>"
  let ?f1 = "?f0 \<lparr> queue := [?r], faucetBalance := 100000000 - dep - 10000000,
                    queueMap := [(''addr_A'', ?r)] \<rparr>"
  from assms have d: "uint dep \<le> 90000000" by (simp add: word_le_def)
  then have le1: "dep \<le> 100000000" by (simp add: word_le_def)
  from d have u1: "uint (100000000 - dep) = 100000000 - uint dep"
    using uint_sub_lem [of dep 100000000] by simp
  with d have le2: "(10000000 :: 64 word) \<le> 100000000 - dep" by (simp add: word_le_def)
  then have nl2: "\<not> 100000000 - dep < (10000000 :: 64 word)" by simp
  from u1 d have u2: "uint (100000000 - dep - 10000000) = 90000000 - uint dep"
    using uint_sub_lem [of 10000000 "100000000 - dep"] by simp
  have s0: "computeAndSetInitialFaucetBalance (Inr oneOutput) (Inr dep) init = Inr ?f0"
    using le1
    by (simp add: computeAndSetInitialFaucetBalance_def
        collectUnlockableFaucetOutputsAndBalanceFuncWithoutLocking_def oneOutput_def init_def)
  have s1: "Enqueue parseAny ''rms'' True (\<lambda>a. Inr 0) defaultOptions ''addr_A'' ?f0
        = (Inr \<lparr> Address = ''addr_A'', WaitingRequests = 1 \<rparr>, ?f1)"
    using nl2
    by (simp add: Enqueue_def parseBech32Address_def parseAny_def isAlreadyinQueue_def
        Enqueue_amount_def Enqueue_commit_def defaultOptions_def init_def queueCapacity_def
        Let_def)
  have s2: "uint (faucetBalance ?f1) = 90000000 - uint dep" using u2 by simp
  have s3: "collectUnlockableFaucetOutputsAndBalanceFuncWithoutLocking (Inr oneOutput) (Inr dep)
          (queueMap ?f1) = Inr (oneOutput, faucetBalance ?f1)"
    using le1 le2
    by (simp add: collectUnlockableFaucetOutputsAndBalanceFuncWithoutLocking_def oneOutput_def)
  show ?thesis
    by (rule exI [of _ ?f0], rule exI [of _ ?f1], intro conjI) (rule s0 s1 s2 s3)+
qed

theorem admit_scenario_witness:
  "(42600 :: 64 word) \<le> 90000000 \<and> (\<exists>f0 f1.
      computeAndSetInitialFaucetBalance (Inr oneOutput) (Inr 42600) init = Inr f0
    \<and> Enqueue parseAny ''rms'' True (\<lambda>a. Inr 0) defaultOptions ''addr_A'' f0
        = (Inr \<lparr> Address = ''addr_A'', WaitingRequests = 1 \<rparr>, f1)
    \<and> uint (faucetBalance f1) = 89957400)"
proof -
  have h: "(42600 :: 64 word) \<le> 90000000" by simp
  from admit_scenario [OF h] obtain f0 f1 where
      "computeAndSetInitialFaucetBalance (Inr oneOutput) (Inr 42600) init = Inr f0"
      "Enqueue parseAny ''rms'' True (\<lambda>a. Inr 0) defaultOptions ''addr_A'' f0
        = (Inr \<lparr> Address = ''addr_A'', WaitingRequests = 1 \<rparr>, f1)"
      "uint (faucetBalance f1) = 90000000 - uint (42600 :: 64 word)"
    by (elim exE conjE)
  then have "computeAndSetInitialFaucetBalance (Inr oneOutput) (Inr 42600) init = Inr f0
    \<and> Enqueue parseAny ''rms'' True (\<lambda>a. Inr 0) defaultOptions ''addr_A'' f0
        = (Inr \<lparr> Address = ''addr_A'', WaitingRequests = 1 \<rparr>, f1)
    \<and> uint (faucetBalance f1) = 89957400" by simp
  then have "\<exists>f0 f1.
      computeAndSetInitialFaucetBalance (Inr oneOutput) (Inr 42600) init = Inr f0
    \<and> Enqueue parseAny ''rms'' True (\<lambda>a. Inr 0) defaultOptions ''addr_A'' f0
        = (Inr \<lparr> Address = ''addr_A'', WaitingRequests = 1 \<rparr>, f1)
    \<and> uint (faucetBalance f1) = 89957400" by (intro exI)
  with h show ?thesis by (intro conjI)
qed

text \<open>
  C9 as stated fails: with a reserved storage deposit of 42600 the projection after the
  admission is 89957400, one more than \<open>89999999 - 42600\<close>.
\<close>

theorem admit_scenario_counterexample:
  "computeAndSetInitialFaucetBalance (Inr oneOutput) (Inr 42600) init
     = Inr (init \<lparr> faucetBalance := 99957400 \<rparr>)
   \<and> Enqueue parseAny ''rms'' True (\<lambda>a. Inr 0) defaultOptions ''addr_A''
        (init \<lparr> faucetBalance := 99957400 \<rparr>)
     = (Inr \<lparr> Address = ''addr_A'', WaitingRequests = 1 \<rparr>,
        \<lparr> faucetBalance = 89957400,
          queue = [\<lparr> Bech32 = ''addr_A'', BaseTokenAmount = 10000000, Address = ''addr_A'' \<rparr>],
          queueMap = [(''addr_A'',
            \<lparr> Bech32 = ''addr_A'', BaseTokenAmount = 10000000, Address = ''addr_A'' \<rparr>)],
          pendingTransaction = None \<rparr>)
   \<and> uint (89957400 :: 64 word) \<noteq> 89999999 - uint (42600 :: 64 word)"
  by (simp add: computeAndSetInitialFaucetBalance_def
        collectUnlockableFaucetOutputsAndBalanceFuncWithoutLocking_def oneOutput_def init_def
        Enqueue_def parseBech32Address_def parseAny_def isAlreadyinQueue_def
        Enqueue_amount_def Enqueue_commit_def defaultOptions_def queueCapacity_def Let_def)

section \<open>Lifecycle of the pending transaction: properties\<close>

lemma filter_delete_notin:
  "filter (\<lambda>kv. fst kv \<notin> S) (AList.delete k al) = filter (\<lambda>kv. fst kv \<notin> insert k S) al"
  by (induction al) (auto simp: AList.delete_eq)

lemma clearRequests_eq:
  "clearRequestsWithoutLocking rs f =
     f \<lparr> queueMap := filter (\<lambda>kv. fst kv \<notin> Bech32 ` set rs) (queueMap f) \<rparr>"
proof (induction rs arbitrary: f)
  case Nil
  show ?case by simp
next
  case (Cons r rs)
  show ?case
    by (simp add: Cons.IH clearRequestWithoutLocking_def filter_delete_notin)
qed

lemma readdRequests_eq:
  "readdRequestsWithoutLocking rs f =
     f \<lparr> queue := queue f @ take (queueCapacity - length (queue f)) rs,
         queueMap := filter (\<lambda>kv. fst kv \<notin> Bech32 ` set (drop (queueCapacity - length (queue f)) rs))
                       (queueMap f) \<rparr>"
proof (induction rs arbitrary: f)
  case Nil
  show ?case by simp
next
  case (Cons r rs)
  show ?case
  proof (cases "length (queue f) < queueCapacity")
    case True
    then obtain m where m: "queueCapacity - length (queue f) = Suc m"
      by (metis Suc_diff_Suc)
    then have m': "queueCapacity - Suc (length (queue f)) = m" by simp
    show ?thesis using True m m' by (simp add: Cons.IH)
  next
    case False
    then have z: "queueCapacity - length (queue f) = 0" by simp
    show ?thesis using False z
      by (simp add: Cons.IH clearRequestWithoutLocking_def filter_delete_notin)
  qed
qed

lemma clearPending_eq:
  "pendingTransaction f = Some (p, tx) \<Longrightarrow>
     clearPendingRequestsWithoutLocking f = Inr (clear_spec (QueuedItems tx) f)"
  by (simp add: clearPendingRequestsWithoutLocking_def clearPendingTransactionWithoutLocking_def
      clearRequests_eq clear_spec_def)

lemma readdPending_eq:
  "pendingTransaction f = Some (p, tx) \<Longrightarrow>
     readdPendingRequestsWithoutLocking f = Inr (readd_spec (QueuedItems tx) f)"
  by (simp add: readdPendingRequestsWithoutLocking_def clearPendingTransactionWithoutLocking_def
      readdRequests_eq readd_spec_def)

lemma check_metadata_decision:
  "(decide_metadata (fetch (TransactionID tx)) = Inl PanicUnknownTransactionState
      \<and> checkPendingTransaction_metadata fetch (Some (p, tx)) = Inl PanicUnknownTransactionState)
   \<or> (\<exists>d m e. decide_metadata (fetch (TransactionID tx)) = Inr d
      \<and> checkPendingTransaction_metadata fetch (Some (p, tx)) = Inr (d = Clear, d = Readd, m, e))"
  by (simp add: checkPendingTransaction_metadata_def decide_metadata_def
      split: sum.splits option.splits TransactionState.splits)

lemma inputSpent_iff: "inputSpent ins consumed \<longleftrightarrow> set ins \<inter> consumed \<noteq> {}"
  by (induction ins) auto

lemma check_ledger_decision:
  "\<exists>m. checkPendingTransaction_ledger created consumed (Some (p, tx)) =
     (decide_ledger created consumed tx = Clear, decide_ledger created consumed tx = Readd, m)"
  by (simp add: checkPendingTransaction_ledger_def decide_ledger_def inputSpent_iff)

lemma apply_no_race:
  assumes "pendingTransaction f = Some (p, tx)"
  shows "ApplyAcceptedTransaction created consumed (Some (p, tx)) f =
          Inr (apply_decision (decide_ledger created consumed tx) (QueuedItems tx) f)"
proof -
  obtain m where m: "checkPendingTransaction_ledger created consumed (Some (p, tx)) =
     (decide_ledger created consumed tx = Clear, decide_ledger created consumed tx = Readd, m)"
    using check_ledger_decision [of created consumed p tx] by blast
  show ?thesis
    using assms clearPending_eq [OF assms] readdPending_eq [OF assms]
    by (cases "decide_ledger created consumed tx")
       (simp_all add: ApplyAcceptedTransaction_def m)
qed

lemma armed_pending: "pendingTransaction armedFaucet = Some (1, pendingT)"
  by (simp add: armedFaucet_def)

lemma readd_armed: "readd_spec [itemA, itemB] armedFaucet =
    \<lparr> faucetBalance = 79000000, queue = [itemC, itemA, itemB],
      queueMap = [(''addr_A'', itemA), (''addr_B'', itemB), (''addr_C'', itemC)],
      pendingTransaction = None \<rparr>"
  by (simp add: readd_spec_def armedFaucet_def queueCapacity_def)

lemma clear_armed: "clear_spec [itemA, itemB] armedFaucet =
    \<lparr> faucetBalance = 79000000, queue = [itemC], queueMap = [(''addr_C'', itemC)],
      pendingTransaction = None \<rparr>"
  by (simp add: clear_spec_def armedFaucet_def itemA_def itemB_def)

text \<open>
  C4. For every non-nil snapshot \<open>Some (p, tx)\<close> of the pending slot, the closure of the
  periodic check decides as \<open>decide_metadata\<close> lists: a fetch error, a nil metadata, the
  state Unknown and the state Failed give readd, Pending gives keep, Accepted, Committed and
  Finalized give clear, and any other state panics. When the slot still holds that
  transaction once the write lock is taken, \<open>checkPendingTransactionState\<close> applies the
  decision: readd returns the batched items to the channel and nulls the slot, clear
  removes them from the address-index and nulls the slot, keep changes nothing. The readd
  is the non-blocking one of the specification (\<open>readd_spec\<close>): an item that finds the
  channel full is not queued and its address leaves the address-index.
\<close>

theorem metadata_poll_decides:
  assumes "pendingTransaction f = Some (p, tx)"
  shows "(case checkPendingTransaction_metadata fetch (Some (p, tx)) of
            Inl pnc \<Rightarrow> decide_metadata (fetch (TransactionID tx)) = Inl pnc
          | Inr (clearPending, readdPending, logMessage, softError) \<Rightarrow>
              decide_metadata (fetch (TransactionID tx))
                = Inr (flags_decision clearPending readdPending)
              \<and> \<not> (clearPending \<and> readdPending))
     \<and> checkPendingTransactionState fetch (Some (p, tx)) f =
          (case decide_metadata (fetch (TransactionID tx)) of
             Inl pnc \<Rightarrow> Inl pnc
           | Inr d \<Rightarrow> Inr (apply_decision d (QueuedItems tx) f))"
proof
  show "case checkPendingTransaction_metadata fetch (Some (p, tx)) of
            Inl pnc \<Rightarrow> decide_metadata (fetch (TransactionID tx)) = Inl pnc
          | Inr (clearPending, readdPending, logMessage, softError) \<Rightarrow>
              decide_metadata (fetch (TransactionID tx))
                = Inr (flags_decision clearPending readdPending)
              \<and> \<not> (clearPending \<and> readdPending)"
    by (simp add: checkPendingTransaction_metadata_def decide_metadata_def flags_decision_def
        split: sum.splits option.splits TransactionState.splits)
next
  from check_metadata_decision [of fetch tx p]
  show "checkPendingTransactionState fetch (Some (p, tx)) f =
          (case decide_metadata (fetch (TransactionID tx)) of
             Inl pnc \<Rightarrow> Inl pnc
           | Inr d \<Rightarrow> Inr (apply_decision d (QueuedItems tx) f))"
  proof (elim disjE conjE exE)
    assume "decide_metadata (fetch (TransactionID tx)) = Inl PanicUnknownTransactionState"
      and "checkPendingTransaction_metadata fetch (Some (p, tx)) = Inl PanicUnknownTransactionState"
    then show ?thesis by (simp add: checkPendingTransactionState_def)
  next
    fix d m e
    assume "decide_metadata (fetch (TransactionID tx)) = Inr d"
      and "checkPendingTransaction_metadata fetch (Some (p, tx)) = Inr (d = Clear, d = Readd, m, e)"
    then show ?thesis
      using assms clearPending_eq [OF assms] readdPending_eq [OF assms]
      by (cases d) (simp_all add: checkPendingTransactionState_def)
  qed
qed

theorem metadata_poll_decides_witness:
  "pendingTransaction armedFaucet = Some (1, pendingT)
   \<and> checkPendingTransactionState (metadataOf TransactionStateFailed) (Some (1, pendingT)) armedFaucet
       = Inr \<lparr> faucetBalance = 79000000, queue = [itemC, itemA, itemB],
               queueMap = [(''addr_A'', itemA), (''addr_B'', itemB), (''addr_C'', itemC)],
               pendingTransaction = None \<rparr>
   \<and> checkPendingTransactionState (metadataOf TransactionStateCommitted) (Some (1, pendingT)) armedFaucet
       = Inr \<lparr> faucetBalance = 79000000, queue = [itemC], queueMap = [(''addr_C'', itemC)],
               pendingTransaction = None \<rparr>
   \<and> checkPendingTransactionState (metadataOf TransactionStatePending) (Some (1, pendingT)) armedFaucet
       = Inr armedFaucet
   \<and> checkPendingTransactionState (metadataOf (TransactionStateOther 9)) (Some (1, pendingT)) armedFaucet
       = Inl PanicUnknownTransactionState"
  using
    metadata_poll_decides [OF armed_pending, of "metadataOf TransactionStateFailed", THEN conjunct2]
    metadata_poll_decides [OF armed_pending, of "metadataOf TransactionStateCommitted", THEN conjunct2]
    metadata_poll_decides [OF armed_pending, of "metadataOf TransactionStatePending", THEN conjunct2]
    metadata_poll_decides [OF armed_pending, of "metadataOf (TransactionStateOther 9)", THEN conjunct2]
  by (simp add: armed_pending decide_metadata_def metadataOf_def pendingT_def readd_armed clear_armed)

text \<open>
  C5. For every non-nil snapshot \<open>Some (p, tx)\<close> of the pending slot and every ledger update
  \<open>(created, consumed)\<close>: the closure decides clear if and only if the output id
  \<open>(TransactionID tx, 0)\<close> is in \<open>created\<close>; otherwise readd if and only if some consumed
  input of \<open>tx\<close> is in \<open>consumed\<close>; otherwise keep. When the slot still holds that
  transaction once the write lock is taken, \<open>ApplyAcceptedTransaction\<close> applies the decision:
  clear removes the batched items from the address-index and nulls the slot, readd sends
  them to the channel again and nulls the slot, keep changes nothing. The readd is the
  non-blocking one of the specification (\<open>readd_spec\<close>): an item that finds the channel
  full is not queued and its address leaves the address-index.
\<close>

theorem ledger_update_decides:
  assumes "pendingTransaction f = Some (p, tx)"
  shows "(case checkPendingTransaction_ledger created consumed (Some (p, tx)) of
            (clearPending, readdPending, logMessage) \<Rightarrow>
              flags_decision clearPending readdPending = decide_ledger created consumed tx
              \<and> \<not> (clearPending \<and> readdPending))
     \<and> ApplyAcceptedTransaction created consumed (Some (p, tx)) f =
          Inr (apply_decision (decide_ledger created consumed tx) (QueuedItems tx) f)"
proof
  show "case checkPendingTransaction_ledger created consumed (Some (p, tx)) of
            (clearPending, readdPending, logMessage) \<Rightarrow>
              flags_decision clearPending readdPending = decide_ledger created consumed tx
              \<and> \<not> (clearPending \<and> readdPending)"
    by (simp add: checkPendingTransaction_ledger_def decide_ledger_def flags_decision_def
        inputSpent_iff)
next
  show "ApplyAcceptedTransaction created consumed (Some (p, tx)) f =
          Inr (apply_decision (decide_ledger created consumed tx) (QueuedItems tx) f)"
    using assms by (rule apply_no_race)
qed

theorem ledger_update_decides_witness:
  "pendingTransaction armedFaucet = Some (1, pendingT)
   \<and> ApplyAcceptedTransaction {(''T'', 0), (''T'', 1)} {(''tx0'', 0)} (Some (1, pendingT)) armedFaucet
       = Inr \<lparr> faucetBalance = 79000000, queue = [itemC], queueMap = [(''addr_C'', itemC)],
               pendingTransaction = None \<rparr>
   \<and> ApplyAcceptedTransaction {(''U'', 0)} {(''tx0'', 0)} (Some (1, pendingT)) armedFaucet
       = Inr \<lparr> faucetBalance = 79000000, queue = [itemC, itemA, itemB],
               queueMap = [(''addr_A'', itemA), (''addr_B'', itemB), (''addr_C'', itemC)],
               pendingTransaction = None \<rparr>
   \<and> ApplyAcceptedTransaction {(''U'', 0)} {(''tx9'', 0)} (Some (1, pendingT)) armedFaucet
       = Inr armedFaucet"
  using
    ledger_update_decides [OF armed_pending, of "{(''T'', 0), (''T'', 1)}" "{(''tx0'', 0)}", THEN conjunct2]
    ledger_update_decides [OF armed_pending, of "{(''U'', 0)}" "{(''tx0'', 0)}", THEN conjunct2]
    ledger_update_decides [OF armed_pending, of "{(''U'', 0)}" "{(''tx9'', 0)}", THEN conjunct2]
  by (simp add: armed_pending decide_ledger_def pendingT_def readd_armed clear_armed)

lemma check_metadata_nil:
  "checkPendingTransaction_metadata fetch None = Inr (False, False, ''no pending transaction found'', None)"
  by (simp add: checkPendingTransaction_metadata_def)

lemma check_ledger_nil:
  "checkPendingTransaction_ledger created consumed None = (False, False, ''no pending transaction found'')"
  by (simp add: checkPendingTransaction_ledger_def)

lemma check_metadata_shape:
  "checkPendingTransaction_metadata fetch ptx = Inl PanicUnknownTransactionState
   \<or> (\<exists>c r m e. checkPendingTransaction_metadata fetch ptx = Inr (c, r, m, e)
        \<and> (ptx = None \<longrightarrow> \<not> c \<and> \<not> r))"
  by (auto simp: checkPendingTransaction_metadata_def
      split: sum.splits option.splits TransactionState.splits)

lemma check_ledger_shape:
  "\<exists>c r m. checkPendingTransaction_ledger created consumed ptx = (c, r, m)
        \<and> (ptx = None \<longrightarrow> \<not> c \<and> \<not> r)"
  by (auto simp: checkPendingTransaction_ledger_def Let_def split: option.splits)

lemma resolve_shape:
  assumes "pendingTransaction f = None \<longrightarrow> \<not> c \<and> \<not> r"
  shows "(if c then clearPendingRequestsWithoutLocking f
          else if r then readdPendingRequestsWithoutLocking f else Inr f)
         \<in> set (resolved f)"
proof (cases "pendingTransaction f")
  case None
  with assms show ?thesis by (simp add: resolved_def)
next
  case (Some a)
  then obtain p tx where cur: "pendingTransaction f = Some (p, tx)" by (cases a) auto
  show ?thesis
    using cur clearPending_eq [OF cur] readdPending_eq [OF cur] by (simp add: resolved_def)
qed

lemma poll_cases:
  "checkPendingTransactionState fetch pendingTx f
     \<in> insert (Inl PanicUnknownTransactionState) (set (resolved f))"
proof -
  from check_metadata_shape [of fetch pendingTx]
  show ?thesis
  proof (elim disjE exE conjE)
    assume "checkPendingTransaction_metadata fetch pendingTx = Inl PanicUnknownTransactionState"
    then show ?thesis by (simp add: checkPendingTransactionState_def)
  next
    fix c r m e
    assume s: "checkPendingTransaction_metadata fetch pendingTx = Inr (c, r, m, e)"
      and n: "pendingTx = None \<longrightarrow> \<not> c \<and> \<not> r"
    show ?thesis
    proof (cases "c \<or> r")
      case False
      then show ?thesis using s by (simp add: checkPendingTransactionState_def resolved_def)
    next
      case True
      show ?thesis
      proof (cases "map_option fst pendingTx \<noteq> map_option fst (pendingTransaction f)")
        case False
        with n True have "pendingTransaction f = None \<longrightarrow> \<not> c \<and> \<not> r" by auto
        from resolve_shape [OF this] show ?thesis
          using s True False by (auto simp: checkPendingTransactionState_def resolved_def)
      next
        case ch: True
        from check_metadata_shape [of fetch "pendingTransaction f"]
        show ?thesis
        proof (elim disjE exE conjE)
          assume "checkPendingTransaction_metadata fetch (pendingTransaction f)
                    = Inl PanicUnknownTransactionState"
          then show ?thesis using s True ch by (auto simp: checkPendingTransactionState_def)
        next
          fix c' r' m' e'
          assume s': "checkPendingTransaction_metadata fetch (pendingTransaction f)
                        = Inr (c', r', m', e')"
            and n': "pendingTransaction f = None \<longrightarrow> \<not> c' \<and> \<not> r'"
          from resolve_shape [OF n'] show ?thesis
            using s s' True ch by (auto simp: checkPendingTransactionState_def resolved_def)
        qed
      qed
    qed
  qed
qed

lemma apply_cases:
  "ApplyAcceptedTransaction created consumed pendingTx f \<in> set (resolved f)"
proof -
  from check_ledger_shape [of created consumed pendingTx]
  obtain c r m where s: "checkPendingTransaction_ledger created consumed pendingTx = (c, r, m)"
      and n: "pendingTx = None \<longrightarrow> \<not> c \<and> \<not> r" by blast
  show ?thesis
  proof (cases "c \<or> r")
    case False
    then show ?thesis using s by (simp add: ApplyAcceptedTransaction_def resolved_def)
  next
    case True
    show ?thesis
    proof (cases "map_option fst pendingTx \<noteq> map_option fst (pendingTransaction f)")
      case False
      with n True have "pendingTransaction f = None \<longrightarrow> \<not> c \<and> \<not> r" by auto
      from resolve_shape [OF this] show ?thesis
        using s True False by (auto simp: ApplyAcceptedTransaction_def resolved_def)
    next
      case ch: True
      from check_ledger_shape [of created consumed "pendingTransaction f"]
      obtain c' r' m' where
        s': "checkPendingTransaction_ledger created consumed (pendingTransaction f) = (c', r', m')"
        and n': "pendingTransaction f = None \<longrightarrow> \<not> c' \<and> \<not> r'" by auto
      from resolve_shape [OF n'] show ?thesis
        using s s' True ch by (auto simp: ApplyAcceptedTransaction_def resolved_def)
    qed
  qed
qed

lemma resolved_Inr: "x \<in> set (resolved f) \<Longrightarrow> \<exists>f'. x = Inr f'"
  by (auto simp: resolved_def split: option.splits)

lemma resolved_nil: "pendingTransaction f = None \<Longrightarrow> set (resolved f) = {Inr f}"
  by (simp add: resolved_def)

lemma poll_nil_snapshot: "checkPendingTransactionState fetch None f = Inr f"
  by (simp add: checkPendingTransactionState_def check_metadata_nil)

lemma apply_nil_snapshot: "ApplyAcceptedTransaction created consumed None f = Inr f"
  by (simp add: ApplyAcceptedTransaction_def check_ledger_nil)

text \<open>
  C10. For both lifecycle entry points, whatever the snapshot and the state found under the
  write lock: the nil dereference of \<open>clearPendingRequestsWithoutLocking\<close> and
  \<open>readdPendingRequestsWithoutLocking\<close> never happens. When the snapshot is nil the state
  is unchanged. When the slot is nil at the recheck the state is unchanged (the periodic
  check can only panic on an unknown transaction state of its snapshot before it reaches
  the recheck). A ledger update that witnesses the success of the pending transaction
  nulls the slot, and applying it a second time changes nothing.
\<close>

theorem nil_slot_safe:
  "checkPendingTransactionState fetch pendingTx f \<noteq> Inl PanicNilDereference
   \<and> ApplyAcceptedTransaction created consumed pendingTx f \<noteq> Inl PanicNilDereference
   \<and> (pendingTx = None \<longrightarrow>
        checkPendingTransactionState fetch pendingTx f = Inr f
        \<and> ApplyAcceptedTransaction created consumed pendingTx f = Inr f)
   \<and> (pendingTransaction f = None \<longrightarrow>
        ApplyAcceptedTransaction created consumed pendingTx f = Inr f
        \<and> checkPendingTransactionState fetch pendingTx f
            \<in> {Inr f, Inl PanicUnknownTransactionState})
   \<and> (pendingTransaction f = Some (p, tx) \<and> (TransactionID tx, 0) \<in> created \<longrightarrow>
        (\<exists>f1. ApplyAcceptedTransaction created consumed (Some (p, tx)) f = Inr f1
           \<and> pendingTransaction f1 = None
           \<and> ApplyAcceptedTransaction created consumed (pendingTransaction f1) f1 = Inr f1))"
proof (intro conjI impI)
  show "checkPendingTransactionState fetch pendingTx f \<noteq> Inl PanicNilDereference"
    using poll_cases [of fetch pendingTx f] resolved_Inr by fastforce
  show "ApplyAcceptedTransaction created consumed pendingTx f \<noteq> Inl PanicNilDereference"
    using apply_cases [of created consumed pendingTx f] resolved_Inr by fastforce
next
  assume "pendingTx = None"
  then show "checkPendingTransactionState fetch pendingTx f = Inr f"
    and "ApplyAcceptedTransaction created consumed pendingTx f = Inr f"
    by (simp_all add: poll_nil_snapshot apply_nil_snapshot)
next
  assume n: "pendingTransaction f = None"
  show "ApplyAcceptedTransaction created consumed pendingTx f = Inr f"
    using apply_cases [of created consumed pendingTx f] resolved_nil [OF n] by simp
  show "checkPendingTransactionState fetch pendingTx f
            \<in> {Inr f, Inl PanicUnknownTransactionState}"
    using poll_cases [of fetch pendingTx f] resolved_nil [OF n] by auto
next
  assume h: "pendingTransaction f = Some (p, tx) \<and> (TransactionID tx, 0) \<in> created"
  then have cur: "pendingTransaction f = Some (p, tx)" and cr: "(TransactionID tx, 0) \<in> created"
    by simp_all
  let ?f1 = "clear_spec (QueuedItems tx) f"
  have 1: "ApplyAcceptedTransaction created consumed (Some (p, tx)) f = Inr ?f1"
    using apply_no_race [OF cur, of created consumed] cr by (simp add: decide_ledger_def)
  have 2: "pendingTransaction ?f1 = None" by (simp add: clear_spec_def)
  have 3: "ApplyAcceptedTransaction created consumed (pendingTransaction ?f1) ?f1 = Inr ?f1"
    by (simp only: 2 apply_nil_snapshot)
  show "\<exists>f1. ApplyAcceptedTransaction created consumed (Some (p, tx)) f = Inr f1
           \<and> pendingTransaction f1 = None
           \<and> ApplyAcceptedTransaction created consumed (pendingTransaction f1) f1 = Inr f1"
    by (rule exI [of _ ?f1], intro conjI) (rule 1 2 3)+
qed

theorem nil_slot_safe_witness:
  "checkPendingTransactionState (metadataOf TransactionStateFailed) None armedFaucet = Inr armedFaucet
   \<and> ApplyAcceptedTransaction {(''T'', 0)} {} None armedFaucet = Inr armedFaucet
   \<and> pendingTransaction fundedFaucet = None
   \<and> ApplyAcceptedTransaction {(''T'', 0)} {} (Some (1, pendingT)) fundedFaucet = Inr fundedFaucet
   \<and> checkPendingTransactionState (metadataOf TransactionStateFailed) (Some (1, pendingT)) fundedFaucet
        \<in> {Inr fundedFaucet, Inl PanicUnknownTransactionState}
   \<and> pendingTransaction armedFaucet = Some (1, pendingT)
   \<and> (TransactionID pendingT, 0) \<in> {(''T'', 0 :: 16 word)}
   \<and> (\<exists>f1. ApplyAcceptedTransaction {(''T'', 0)} {} (Some (1, pendingT)) armedFaucet = Inr f1
           \<and> pendingTransaction f1 = None
           \<and> ApplyAcceptedTransaction {(''T'', 0)} {} (pendingTransaction f1) f1 = Inr f1)"
proof -
  have n: "pendingTransaction fundedFaucet = None" by (simp add: fundedFaucet_def init_def)
  have c: "pendingTransaction armedFaucet = Some (1, pendingT)
     \<and> (TransactionID pendingT, 0) \<in> {(''T'', 0 :: 16 word)}"
    by (simp add: armed_pending pendingT_def)
  note a = nil_slot_safe [where pendingTx = None and f = armedFaucet
      and fetch = "metadataOf TransactionStateFailed" and created = "{(''T'', 0)}"
      and consumed = "{}", THEN conjunct2, THEN conjunct2, THEN conjunct1, THEN mp, OF refl]
  note b = nil_slot_safe [where pendingTx = "Some (1, pendingT)" and f = fundedFaucet
      and fetch = "metadataOf TransactionStateFailed" and created = "{(''T'', 0)}"
      and consumed = "{}", THEN conjunct2, THEN conjunct2, THEN conjunct2, THEN conjunct1,
      THEN mp, OF n]
  note d = nil_slot_safe [where f = armedFaucet and p = 1 and tx = pendingT
      and created = "{(''T'', 0)}" and consumed = "{}",
      THEN conjunct2, THEN conjunct2, THEN conjunct2, THEN conjunct2, THEN mp, OF c]
  from a b d n c show ?thesis by (intro conjI) (simp_all only: simp_thms)
qed

section \<open>Batch filtering: properties\<close>

lemma withVerdict_Nil [simp]: "withVerdict v vs [] = []"
  by (simp add: withVerdict_def)

lemma withVerdict_Cons [simp]:
  "withVerdict v (w # vs) (r # rs) = (if w = v then r # withVerdict v vs rs else withVerdict v vs rs)"
  by (simp add: withVerdict_def)

lemma withVerdict_no_verdicts [simp]: "withVerdict v [] rs = []"
  by (simp add: withVerdict_def)

lemma subseq_withVerdict: "subseq (withVerdict v vs rs) rs"
proof (induction rs arbitrary: vs)
  case Nil
  show ?case by simp
next
  case (Cons r rs)
  show ?case
  proof (cases vs)
    case Nil
    then show ?thesis by simp
  next
    case (Cons w ws)
    with Cons.IH [of ws] show ?thesis by (auto intro: list_emb_Cons)
  qed
qed

lemma processRequests_loop_eq:
  "\<exists>counter' balance'.
     processRequests_loop MaxOutputs healthy rs (counter, balance, processed, unprocessed) f =
       ((counter', balance',
         processed @ withVerdict Accept (filter_spec MaxOutputs healthy counter balance rs) rs,
         unprocessed @ withVerdict Defer (filter_spec MaxOutputs healthy counter balance rs) rs),
        f \<lparr> queueMap := filter
              (\<lambda>kv. fst kv \<notin> Bech32 `
                 set (withVerdict Drop (filter_spec MaxOutputs healthy counter balance rs) rs))
              (queueMap f) \<rparr>)"
proof (induction rs arbitrary: counter balance processed unprocessed f)
  case Nil
  show ?case by simp
next
  case (Cons r rs)
  show ?case
  proof (cases "\<not> healthy \<or> counter \<ge> MaxOutputs - 1")
    case True
    from Cons.IH [of counter balance processed "unprocessed @ [r]" f]
    show ?thesis using True by auto
  next
    case False
    show ?thesis
    proof (cases "balance < BaseTokenAmount r")
      case True
      from Cons.IH [of counter balance processed unprocessed "clearRequestWithoutLocking r f"]
      show ?thesis using True False
        by (auto simp: clearRequestWithoutLocking_def filter_delete_notin)
    next
      case nb: False
      from Cons.IH [of "counter + 1" "balance - BaseTokenAmount r" "processed @ [r]" unprocessed f]
      show ?thesis using nb False by auto
    qed
  qed
qed

text \<open>
  C6. Batch filtering gives every request of the batch, in arrival order, the verdict of
  \<open>filter_spec\<close>: deferred when the node is unhealthy, else deferred when the counter is at
  least \<open>MaxOutputs - 1\<close>, else dropped when the running balance is below its amount, else
  accepted with the balance decreased by its amount and the counter increased by one.
  The function returns the accepted requests, which form a subsequence of the batch in its
  order. The dropped requests are removed from the address-index and not sent to the
  channel. The deferred requests are sent to the channel without blocking: they are
  appended while it has room, and the others are removed from the address-index. The
  projection and the pending slot are unchanged.
\<close>

theorem batch_filtering:
  "(let verdicts = filter_spec MaxOutputs healthy counter balance batch;
        accepted = withVerdict Accept verdicts batch;
        deferred = withVerdict Defer verdicts batch;
        dropped = withVerdict Drop verdicts batch;
        room = queueCapacity - length (queue f)
    in processRequestsWithoutLocking MaxOutputs healthy counter balance batch f =
         (accepted,
          f \<lparr> queue := queue f @ take room deferred,
              queueMap := filter
                (\<lambda>kv. fst kv \<notin> Bech32 ` set dropped \<union> Bech32 ` set (drop room deferred))
                (queueMap f) \<rparr>)
       \<and> subseq accepted batch)"
proof -
  let ?vs = "filter_spec MaxOutputs healthy counter balance batch"
  let ?room = "queueCapacity - length (queue f)"
  let ?f1 = "f \<lparr> queueMap := filter
                (\<lambda>kv. fst kv \<notin> Bech32 ` set (withVerdict Drop ?vs batch)) (queueMap f) \<rparr>"
  obtain counter' balance' where
    l: "processRequests_loop MaxOutputs healthy batch (counter, balance, [], []) f =
         ((counter', balance', withVerdict Accept ?vs batch, withVerdict Defer ?vs batch), ?f1)"
    using processRequests_loop_eq [of MaxOutputs healthy batch counter balance "[]" "[]" f]
    by auto
  have "processRequestsWithoutLocking MaxOutputs healthy counter balance batch f =
         (withVerdict Accept ?vs batch,
          f \<lparr> queue := queue f @ take ?room (withVerdict Defer ?vs batch),
              queueMap := filter
                (\<lambda>kv. fst kv \<notin> Bech32 ` set (withVerdict Drop ?vs batch)
                             \<union> Bech32 ` set (drop ?room (withVerdict Defer ?vs batch)))
                (queueMap f) \<rparr>)"
    by (simp add: processRequestsWithoutLocking_def l readdRequests_eq conj_commute)
  then show ?thesis
    by (simp add: Let_def subseq_withVerdict)
qed

theorem batch_filtering_witness:
  "filter_spec 128 True 126 5000000 batch3 = [Drop, Accept, Defer]
   \<and> processRequestsWithoutLocking 128 True 126 5000000 batch3 indexedFaucet =
       ([itemB],
        \<lparr> faucetBalance = 5000000, queue = [itemC],
          queueMap = [(''addr_B'', itemB), (''addr_C'', itemC)],
          pendingTransaction = None \<rparr>)
   \<and> subseq [itemB] batch3
   \<and> processRequestsWithoutLocking 128 False 126 5000000 batch3 indexedFaucet =
       ([], indexedFaucet \<lparr> queue := batch3 \<rparr>)"
proof -
  have v: "filter_spec 128 True 126 5000000 batch3 = [Drop, Accept, Defer]"
    by (simp add: batch3_def itemA_def itemB_def itemC_def)
  have w: "filter_spec 128 False 126 5000000 batch3 = [Defer, Defer, Defer]"
    by (simp add: batch3_def)
  from batch_filtering [of 128 True 126 5000000 batch3 indexedFaucet]
  have 1: "processRequestsWithoutLocking 128 True 126 5000000 batch3 indexedFaucet =
       ([itemB],
        \<lparr> faucetBalance = 5000000, queue = [itemC],
          queueMap = [(''addr_B'', itemB), (''addr_C'', itemC)],
          pendingTransaction = None \<rparr>)
     \<and> subseq [itemB] batch3"
    unfolding v
    by (simp add: Let_def batch3_def indexedFaucet_def queueCapacity_def)
       (simp add: itemA_def itemB_def itemC_def)
  from batch_filtering [of 128 False 126 5000000 batch3 indexedFaucet]
  have 2: "processRequestsWithoutLocking 128 False 126 5000000 batch3 indexedFaucet =
       ([], indexedFaucet \<lparr> queue := batch3 \<rparr>)"
    unfolding w
    by (simp add: Let_def batch3_def indexedFaucet_def queueCapacity_def)
  from v 1 2 show ?thesis by simp
qed

section \<open>Mana payout: properties\<close>

lemma unat_len: "len < 2 ^ 63 \<Longrightarrow> unat (of_nat len :: 64 word) = len"
  by (simp add: unat_of_nat)

text \<open>
  C8. The per-output mana payout, for a batch of \<open>len\<close> requests (a Go length, below
  \<open>2 ^ 63\<close>): it is 0, with one soft error logged, when the computation of the available
  mana fails, when \<open>len\<close> times the per-request mana does not fit in 64 bits, when the
  unbound stored mana minus that product is negative, and when it is at most the minimum
  faucet mana; otherwise it is the configured per-request mana and nothing is logged. All
  comparisons are between the exact integers: nothing wraps.
\<close>

theorem mana_payout:
  assumes "len < 2 ^ 63"
  shows "manaPayoutPerOutput opts available len =
     (case available of
        Inl err \<Rightarrow> (0, [ErrSoft ''failed to calculate available mana balance''])
      | Inr unbound \<Rightarrow>
          if 2 ^ 64 \<le> int len * uint (manaAmount opts)
          then (0, [ErrSoft ''failed to calculate required total mana for payouts''])
          else if uint unbound - int len * uint (manaAmount opts) < 0
          then (0, [ErrSoft ''not enough mana left in the faucet to do the payouts: %d < %d''])
          else if uint unbound - int len * uint (manaAmount opts) \<le> uint (manaAmountMinFaucet opts)
          then (0, [ErrSoft ''not enough mana left in the faucet: %d < %d''])
          else (manaAmount opts, []))"
proof (cases available)
  case (Inl err)
  then show ?thesis by (simp add: manaPayoutPerOutput_def)
next
  case (Inr unbound)
  let ?m = "manaAmount opts"
  have l: "unat (of_nat len :: 64 word) = len" using assms by (rule unat_len)
  have im: "int len * uint ?m = int (len * unat ?m)" by simp
  show ?thesis
  proof (cases "len * unat ?m < 2 ^ 64")
    case False
    then have "2 ^ 64 \<le> int len * uint ?m"
      unfolding im by (metis not_less of_nat_le_iff of_nat_numeral of_nat_power)
    with False Inr show ?thesis by (simp add: manaPayoutPerOutput_def SafeMul_def l)
  next
    case True
    then have nov: "\<not> 2 ^ 64 \<le> int len * uint ?m"
      unfolding im by (metis not_less of_nat_less_iff of_nat_numeral of_nat_power)
    from True have "unat (of_nat len :: 64 word) * unat ?m < 2 ^ 64" by (simp add: l)
    then have "unat (of_nat len * ?m) = unat (of_nat len :: 64 word) * unat ?m"
      using unat_mult_lem [of "of_nat len :: 64 word" ?m] by simp
    then have u: "unat (of_nat len * ?m) = len * unat ?m" by (simp only: l)
    have "uint (of_nat len * ?m) = int (unat (of_nat len * ?m))" by (rule uint_nat)
    also have "\<dots> = int (len * unat ?m)" by (simp only: u)
    finally have t: "uint (of_nat len * ?m) = int len * uint ?m" by (simp only: im)
    have mul: "SafeMul (of_nat len) ?m = Inr (of_nat len * ?m)"
      using True by (simp add: SafeMul_def l)
    show ?thesis
    proof (cases "of_nat len * ?m \<le> unbound")
      case False
      then have "uint unbound - int len * uint ?m < 0" by (simp add: word_le_def t)
      with False Inr nov mul show ?thesis by (simp add: manaPayoutPerOutput_def SafeSub_def)
    next
      case le: True
      then have ge: "\<not> uint unbound - int len * uint ?m < 0" by (simp add: word_le_def t)
      from le have "uint (unbound - of_nat len * ?m) = uint unbound - int len * uint ?m"
        using uint_sub_lem [of "of_nat len * ?m" unbound] by (simp add: word_le_def t)
      then have cmp: "(unbound - of_nat len * ?m \<le> manaAmountMinFaucet opts)
          = (uint unbound - int len * uint ?m \<le> uint (manaAmountMinFaucet opts))"
        by (simp add: word_le_def)
      from le Inr nov ge mul cmp show ?thesis
        by (simp add: manaPayoutPerOutput_def SafeSub_def)
    qed
  qed
qed

theorem mana_payout_witness:
  "(3 :: nat) < 2 ^ 63
   \<and> manaPayoutPerOutput defaultOptions (Inr 2000000) 3 = (1000, [])
   \<and> manaPayoutPerOutput defaultOptions (Inr 1002000) 3
       = (0, [ErrSoft ''not enough mana left in the faucet: %d < %d''])
   \<and> manaPayoutPerOutput defaultOptions (Inr 100) 3
       = (0, [ErrSoft ''not enough mana left in the faucet to do the payouts: %d < %d''])
   \<and> manaPayoutPerOutput hugeManaOptions (Inr 2000000) 3
       = (0, [ErrSoft ''failed to calculate required total mana for payouts''])
   \<and> manaPayoutPerOutput defaultOptions (Inl (ErrExternal ''no commitment'')) 3
       = (0, [ErrSoft ''failed to calculate available mana balance''])"
proof -
  have h: "(3 :: nat) < 2 ^ 63" by simp
  show ?thesis
    using h
      mana_payout [OF h, of defaultOptions "Inr 2000000"]
      mana_payout [OF h, of defaultOptions "Inr 1002000"]
      mana_payout [OF h, of defaultOptions "Inr 100"]
      mana_payout [OF h, of hugeManaOptions "Inr 2000000"]
      mana_payout [OF h, of defaultOptions "Inl (ErrExternal ''no commitment'')"]
    by (simp add: defaultOptions_def hugeManaOptions_def)
qed

section \<open>Transaction assembly: properties\<close>



lemma addInputs_eq:
  "addInputs address outs (outputCount, r, b, consumed) =
     (outputCount + int (length outs),
      foldl (\<lambda>r out. r + Amount (Output out)) r outs,
      b \<lparr> inputs := inputs b @
             map (\<lambda>u. \<lparr> UnlockTarget = address, InputID = OutputID u, Input = Output u \<rparr>) outs \<rparr>,
      consumed @ map OutputID outs)"
  by (induction outs arbitrary: outputCount r b consumed) (simp_all add: AddInput_def)

lemma addInputs_start:
  "addInputs address outs
     (0, 0, \<lparr> taggedDataTag = tagMessage opts, inputs = [], outputs = [] \<rparr>, []) =
     (int (length outs), foldl (\<lambda>r out. r + Amount (Output out)) 0 outs,
      txBuilderWithInputs address opts outs, map OutputID outs)"
  by (simp add: addInputs_eq txBuilderWithInputs_def)




lemma addRequestOutputs_budget:
  "\<exists>outputCount' r' idx' outs.
      addRequestOutputs MaxOutputs payout batch (outputCount, r, idx, b) =
        (outputCount', r', idx', b \<lparr> outputs := outputs b @ outs \<rparr>)
      \<and> idx' = idx + int (length outs)
      \<and> int (length outs) \<le> max 0 (MaxOutputs - 2 - outputCount)"
proof (induction batch arbitrary: outputCount r idx b)
  case Nil
  have "addRequestOutputs MaxOutputs payout [] (outputCount, r, idx, b) =
        (outputCount, r, idx, b \<lparr> outputs := outputs b @ [] \<rparr>)" by simp
  then show ?case by (intro exI [of _ "[]"] exI conjI) simp_all
next
  case (Cons req reqs)
  show ?case
  proof (cases "outputCount + 1 \<ge> MaxOutputs - 1 \<or> r = 0")
    case True
    then have "addRequestOutputs MaxOutputs payout (req # reqs) (outputCount, r, idx, b) =
        (outputCount + 1, r, idx, b \<lparr> outputs := outputs b @ [] \<rparr>)"
      by (auto simp: Let_def)
    then show ?thesis by (intro exI [of _ "[]"] exI conjI) simp_all
  next
    case False
    let ?amt = "if r <s BaseTokenAmount req then r else BaseTokenAmount req"
    let ?o = "\<lparr> Amount = ?amt, Mana = payout, UnlockAddress = queueItem.Address req \<rparr>"
    from Cons.IH [of "outputCount + 1" "r - ?amt" "idx + 1" "AddOutput ?o b"]
    obtain oc' r' idx' outs where
      e: "addRequestOutputs MaxOutputs payout reqs (outputCount + 1, r - ?amt, idx + 1, AddOutput ?o b)
            = (oc', r', idx', (AddOutput ?o b) \<lparr> outputs := outputs (AddOutput ?o b) @ outs \<rparr>)"
      and i: "idx' = idx + 1 + int (length outs)"
      and l: "int (length outs) \<le> max 0 (MaxOutputs - 2 - (outputCount + 1))"
      by blast
    have "addRequestOutputs MaxOutputs payout (req # reqs) (outputCount, r, idx, b) =
        (oc', r', idx', b \<lparr> outputs := outputs b @ (?o # outs) \<rparr>)"
      using False e by (simp add: Let_def AddOutput_def)
    moreover have "idx' = idx + int (length (?o # outs))" using i by simp
    moreover have "int (length (?o # outs)) \<le> max 0 (MaxOutputs - 2 - outputCount)"
      using l False by auto
    ultimately show ?thesis by blast
  qed
qed

lemma createTransactionBuilder_unfold:
  "createTransactionBuilder MaxOutputs address opts calc slot unspent batch =
    (case addRequestOutputs MaxOutputs
            (fst (manaPayoutPerOutput opts (calc (txBuilderWithInputs address opts unspent) slot)
                    (length batch)))
            batch
            (int (length unspent), foldl (\<lambda>r out. r + Amount (Output out)) 0 unspent, 0,
             txBuilderWithInputs address opts unspent) of
       (outputCount', remainderAmount', remainderOutputIndex, txBuilder') \<Rightarrow>
         ((if 0 <s remainderAmount'
           then AddOutput \<lparr> Amount = remainderAmount', Mana = 0, UnlockAddress = address \<rparr>
                  txBuilder'
           else txBuilder',
           map OutputID unspent, remainderOutputIndex),
          snd (manaPayoutPerOutput opts (calc (txBuilderWithInputs address opts unspent) slot)
                 (length batch))))"
  by (simp add: createTransactionBuilder_def addInputs_start split: prod.splits)




text \<open>
  The two slot counters at their bound. \<open>processRequestsWithoutLocking\<close> tests its counter
  before it counts a request, \<open>createTransactionBuilder\<close> after: when the inputs and the
  requests of a batch add up to exactly \<open>MaxOutputs - 1\<close>, a healthy node and a sufficient
  balance make the filter accept every request, and the builder emits fewer request outputs
  than there are requests.
\<close>

lemma filter_accepts_up_to_bound:
  assumes "counter + int (length batch) \<le> MaxOutputs - 1"
    and "(\<Sum>r\<leftarrow>batch. uint (BaseTokenAmount r)) \<le> uint balance"
  shows "filter_spec MaxOutputs True counter balance batch = replicate (length batch) Accept"
  using assms
proof (induction batch arbitrary: counter balance)
  case Nil
  show ?case by simp
next
  case (Cons r rs)
  have nonneg: "0 \<le> (\<Sum>r\<leftarrow>rs. uint (BaseTokenAmount r))"
    by (rule sum_list_nonneg) auto
  from Cons.prems have c: "\<not> counter \<ge> MaxOutputs - 1"
    and c': "(counter + 1) + int (length rs) \<le> MaxOutputs - 1" by simp_all
  from Cons.prems nonneg have le: "uint (BaseTokenAmount r) \<le> uint balance" by simp
  then have b: "\<not> balance < BaseTokenAmount r" by (simp add: word_less_def)
  from le have "uint (balance - BaseTokenAmount r) = uint balance - uint (BaseTokenAmount r)"
    by (simp add: uint_sub_lem)
  with Cons.prems have
    b': "(\<Sum>r\<leftarrow>rs. uint (BaseTokenAmount r)) \<le> uint (balance - BaseTokenAmount r)"
    by simp
  from Cons.IH [OF c' b'] c b show ?case by simp
qed

lemma builder_stops_before_bound:
  assumes "int (length unspent) + int (length batch) = MaxOutputs - 1" and "batch \<noteq> []"
  shows "snd (snd (fst (createTransactionBuilder MaxOutputs address opts calc slot unspent batch)))
           < int (length batch)"
proof -
  let ?TB = "txBuilderWithInputs address opts unspent"
  let ?payout = "fst (manaPayoutPerOutput opts (calc ?TB slot) (length batch))"
  let ?R0 = "foldl (\<lambda>r out. r + Amount (Output out)) (0 :: 64 word) unspent"
  from addRequestOutputs_budget [of MaxOutputs ?payout batch "int (length unspent)" ?R0 0 ?TB]
  obtain oc' r' idx' outs where
    run: "addRequestOutputs MaxOutputs ?payout batch (int (length unspent), ?R0, 0, ?TB) =
            (oc', r', idx', ?TB \<lparr> outputs := outputs ?TB @ outs \<rparr>)"
    and idx: "idx' = 0 + int (length outs)"
    and bound: "int (length outs) \<le> max 0 (MaxOutputs - 2 - int (length unspent))"
    by blast
  from assms have "0 < length batch" by simp
  with assms bound idx have "idx' < int (length batch)" by simp
  then show ?thesis by (simp add: createTransactionBuilder_unfold run)
qed

end
